theory Spec2Isabelle
  imports Main "HOL-Library.Word"
begin

unbundle bit_operations_syntax

section \<open>ARM3 memory manager initialisation (ntoskrnl/mm/ARM3/mminit.c)\<close>

text \<open>
  The embedding follows the 32-bit, two-level paging build of the file: \<open>ULONG\<close>,
  \<open>PFN_NUMBER\<close>, \<open>SIZE_T\<close> and \<open>ULONG_PTR\<close> are 32-bit words, so every sum, difference
  and product wraps modulo \<open>2 ^ 32\<close> as it does in C.
\<close>

type_synonym ULONG = "32 word"
type_synonym PFN_NUMBER = "32 word"

subsection \<open>Loader data\<close>

text \<open>
  \<open>TYPE_OF_MEMORY\<close>: the loader's memory kinds, in the order of the table that
  \<open>MiScanMemoryDescriptors\<close> fills in. Every value of the datatype is below
  \<open>LoaderMaximum\<close>.
\<close>

datatype TYPE_OF_MEMORY =
    LoaderExceptionBlock
  | LoaderSystemBlock
  | LoaderFree
  | LoaderBad
  | LoaderLoadedProgram
  | LoaderFirmwareTemporary
  | LoaderFirmwarePermanent
  | LoaderOsloaderHeap
  | LoaderOsloaderStack
  | LoaderSystemCode
  | LoaderHalCode
  | LoaderBootDriver
  | LoaderConsoleInDriver
  | LoaderConsoleOutDriver
  | LoaderStartupDpcStack
  | LoaderStartupKernelStack
  | LoaderStartupPanicStack
  | LoaderStartupPcrPage
  | LoaderStartupPdrPage
  | LoaderRegistryData
  | LoaderMemoryData
  | LoaderNlsData
  | LoaderSpecialMemory
  | LoaderBBTMemory
  | LoaderReserve
  | LoaderXIPRom
  | LoaderHALCachedMemory
  | LoaderLargePageFiller
  | LoaderErrorLogMemory

datatype MMLISTS =
    ZeroedPageList
  | FreePageList
  | StandbyPageList
  | ModifiedPageList
  | ModifiedNoWritePageList
  | BadPageList
  | ActiveAndValid
  | TransitionPage

record MEMORY_ALLOCATION_DESCRIPTOR =
  MemoryType :: TYPE_OF_MEMORY
  BasePage :: ULONG
  PageCount :: ULONG

text \<open>
  \<open>LocationByMemoryType\<close> as \<open>MiScanMemoryDescriptors\<close> sets it up before its loop;
  \<open>None\<close> is the entry \<open>-1\<close> (not part of the PFN database).
\<close>

fun LocationByMemoryType :: "TYPE_OF_MEMORY \<Rightarrow> MMLISTS option" where
  "LocationByMemoryType LoaderExceptionBlock = Some ActiveAndValid"
| "LocationByMemoryType LoaderSystemBlock = Some ActiveAndValid"
| "LocationByMemoryType LoaderFree = Some FreePageList"
| "LocationByMemoryType LoaderBad = Some BadPageList"
| "LocationByMemoryType LoaderLoadedProgram = Some FreePageList"
| "LocationByMemoryType LoaderFirmwareTemporary = Some FreePageList"
| "LocationByMemoryType LoaderFirmwarePermanent = None"
| "LocationByMemoryType LoaderOsloaderHeap = Some ActiveAndValid"
| "LocationByMemoryType LoaderOsloaderStack = Some FreePageList"
| "LocationByMemoryType LoaderSystemCode = Some ActiveAndValid"
| "LocationByMemoryType LoaderHalCode = Some ActiveAndValid"
| "LocationByMemoryType LoaderBootDriver = Some ActiveAndValid"
| "LocationByMemoryType LoaderConsoleInDriver = Some ActiveAndValid"
| "LocationByMemoryType LoaderConsoleOutDriver = Some ActiveAndValid"
| "LocationByMemoryType LoaderStartupDpcStack = Some ActiveAndValid"
| "LocationByMemoryType LoaderStartupKernelStack = Some ActiveAndValid"
| "LocationByMemoryType LoaderStartupPanicStack = Some ActiveAndValid"
| "LocationByMemoryType LoaderStartupPcrPage = Some ActiveAndValid"
| "LocationByMemoryType LoaderStartupPdrPage = Some ActiveAndValid"
| "LocationByMemoryType LoaderRegistryData = Some ActiveAndValid"
| "LocationByMemoryType LoaderMemoryData = Some ActiveAndValid"
| "LocationByMemoryType LoaderNlsData = Some ActiveAndValid"
| "LocationByMemoryType LoaderSpecialMemory = None"
| "LocationByMemoryType LoaderBBTMemory = None"
| "LocationByMemoryType LoaderReserve = Some ActiveAndValid"
| "LocationByMemoryType LoaderXIPRom = Some ActiveAndValid"
| "LocationByMemoryType LoaderHALCachedMemory = Some ActiveAndValid"
| "LocationByMemoryType LoaderLargePageFiller = Some ActiveAndValid"
| "LocationByMemoryType LoaderErrorLogMemory = Some ActiveAndValid"

definition MiIsMemoryTypeInDatabase :: "TYPE_OF_MEMORY \<Rightarrow> bool" where
  "MiIsMemoryTypeInDatabase t = (LocationByMemoryType t \<noteq> None)"

definition MiIsMemoryTypeFree :: "TYPE_OF_MEMORY \<Rightarrow> bool" where
  "MiIsMemoryTypeFree t = (LocationByMemoryType t = Some FreePageList)"

subsection \<open>Fatal outcomes\<close>

text \<open>
  \<open>KeBugCheckEx\<close> never returns; a read through a null pointer and a failed assertion
  stop the function as well. Each is a value of \<open>fault\<close>, returned on the left.
\<close>

datatype bugcheck_code = INSTALL_MORE_MEMORY

datatype fault =
    KeBugCheckEx bugcheck_code ULONG ULONG ULONG ULONG
  | NullPointerDereference
  | AssertionFailure
  | BufferOverrun

subsection \<open>Globals of the scanner and of the early allocator\<close>

text \<open>
  \<open>MxFreeDescriptor\<close> points into the loader's descriptor list: the model keeps the
  position of the descriptor in the list, and \<open>None\<close> for the null pointer.
\<close>

record mm_globals =
  MmNumberOfPhysicalPages :: PFN_NUMBER
  MmHighestPhysicalPage :: PFN_NUMBER
  MmLowestPhysicalPage :: PFN_NUMBER
  MiNumberOfFreePages :: PFN_NUMBER
  MiEarlyAllocCount :: PFN_NUMBER
  MiEarlyAllocBase :: PFN_NUMBER
  MiNumberDescriptors :: ULONG
  MxFreeDescriptor :: "nat option"
  MxOldFreeDescriptor :: MEMORY_ALLOCATION_DESCRIPTOR

text \<open>The values the globals have when the kernel image is loaded.\<close>

definition boot_globals :: mm_globals where
  "boot_globals =
     \<lparr> MmNumberOfPhysicalPages = 0,
       MmHighestPhysicalPage = 0,
       MmLowestPhysicalPage = - 1,
       MiNumberOfFreePages = 0,
       MiEarlyAllocCount = 0,
       MiEarlyAllocBase = 0,
       MiNumberDescriptors = 0,
       MxFreeDescriptor = None,
       MxOldFreeDescriptor =
         \<lparr> MemoryType = LoaderExceptionBlock, BasePage = 0, PageCount = 0 \<rparr> \<rparr>"

subsection \<open>MiScanMemoryDescriptors\<close>

text \<open>One iteration of the loop, on the descriptor at position \<open>i\<close> of the list.\<close>

definition scan_descriptor ::
  "MEMORY_ALLOCATION_DESCRIPTOR \<Rightarrow> nat \<Rightarrow> 'a mm_globals_scheme \<Rightarrow> 'a mm_globals_scheme" where
  "scan_descriptor MdBlock i s =
     (let s1 = s\<lparr>MiNumberDescriptors := MiNumberDescriptors s + 1\<rparr> in
      if \<not> MiIsMemoryTypeInDatabase (MemoryType MdBlock) then s1
      else
        let s2 = (if MemoryType MdBlock \<noteq> LoaderBad
                  then s1\<lparr>MmNumberOfPhysicalPages :=
                            MmNumberOfPhysicalPages s1 + PageCount MdBlock\<rparr>
                  else s1);
            s3 = s2\<lparr>MmLowestPhysicalPage :=
                       min (MmLowestPhysicalPage s2) (BasePage MdBlock),
                     MmHighestPhysicalPage :=
                       max (MmHighestPhysicalPage s2)
                           (BasePage MdBlock + PageCount MdBlock - 1)\<rparr>
        in
        if MiIsMemoryTypeFree (MemoryType MdBlock) then
          let s4 = s3\<lparr>MiNumberOfFreePages := MiNumberOfFreePages s3 + PageCount MdBlock\<rparr>
          in if PageCount MdBlock > MiEarlyAllocCount s4
             then s4\<lparr>MxFreeDescriptor := Some i, MiEarlyAllocCount := PageCount MdBlock\<rparr>
             else s4
        else s3)"

fun scan_loop ::
  "MEMORY_ALLOCATION_DESCRIPTOR list \<Rightarrow> nat \<Rightarrow> 'a mm_globals_scheme \<Rightarrow> 'a mm_globals_scheme" where
  "scan_loop [] i s = s"
| "scan_loop (MdBlock # rest) i s = scan_loop rest (Suc i) (scan_descriptor MdBlock i s)"

text \<open>
  After the loop the function copies \<open>*MxFreeDescriptor\<close> and reads its base page. Nothing
  guards the two reads: when the loop selected no descriptor the pointer is still null.
\<close>

definition MiScanMemoryDescriptors ::
  "MEMORY_ALLOCATION_DESCRIPTOR list \<Rightarrow> 'a mm_globals_scheme \<Rightarrow> fault + 'a mm_globals_scheme" where
  "MiScanMemoryDescriptors descs s =
     (let s' = scan_loop descs 0 s in
      case MxFreeDescriptor s' of
        None \<Rightarrow> Inl NullPointerDereference
      | Some i \<Rightarrow>
          Inr (s'\<lparr>MxOldFreeDescriptor := descs ! i,
                  MiEarlyAllocBase := BasePage (descs ! i)\<rparr>))"

subsection \<open>MiEarlyAllocPages\<close>

definition MiEarlyAllocPages ::
  "MEMORY_ALLOCATION_DESCRIPTOR list \<Rightarrow> PFN_NUMBER \<Rightarrow> 'a mm_globals_scheme
     \<Rightarrow> fault + (PFN_NUMBER \<times> 'a mm_globals_scheme)" where
  "MiEarlyAllocPages descs n s =
     (if n > MiEarlyAllocCount s then
        (case MxFreeDescriptor s of
           None \<Rightarrow> Inl NullPointerDereference
         | Some i \<Rightarrow>
             Inl (KeBugCheckEx INSTALL_MORE_MEMORY
                    (MmNumberOfPhysicalPages s)
                    (MiEarlyAllocCount s)
                    (PageCount (descs ! i))
                    n))
      else
        Inr (MiEarlyAllocBase s,
             s\<lparr>MiEarlyAllocBase := MiEarlyAllocBase s + n,
               MiEarlyAllocCount := MiEarlyAllocCount s - n\<rparr>))"

text \<open>Successive calls, one per requested size; the first fatal outcome ends the run.\<close>

fun early_allocs ::
  "MEMORY_ALLOCATION_DESCRIPTOR list \<Rightarrow> PFN_NUMBER list \<Rightarrow> 'a mm_globals_scheme
     \<Rightarrow> fault + (PFN_NUMBER list \<times> 'a mm_globals_scheme)" where
  "early_allocs descs [] s = Inr ([], s)"
| "early_allocs descs (n # ns) s =
     (case MiEarlyAllocPages descs n s of
        Inl e \<Rightarrow> Inl e
      | Inr (p, s') \<Rightarrow>
          (case early_allocs descs ns s' of
             Inl e \<Rightarrow> Inl e
           | Inr (ps, s'') \<Rightarrow> Inr (p # ps, s'')))"

subsection \<open>Notions of the specification\<close>

text \<open>The descriptors the claim sums over, in the words of the specification.\<close>

definition in_database :: "MEMORY_ALLOCATION_DESCRIPTOR \<Rightarrow> bool" where
  "in_database d = (LocationByMemoryType (MemoryType d) \<noteq> None)"

definition last_page :: "MEMORY_ALLOCATION_DESCRIPTOR \<Rightarrow> PFN_NUMBER" where
  "last_page d = BasePage d + PageCount d - 1"

subsection \<open>Concrete inputs\<close>

definition S6_descriptors :: "MEMORY_ALLOCATION_DESCRIPTOR list" where
  "S6_descriptors = [\<lparr>MemoryType = LoaderFree, BasePage = 0x100, PageCount = 3\<rparr>]"

definition S6_scanned :: mm_globals where
  "S6_scanned =
     \<lparr> MmNumberOfPhysicalPages = 3,
       MmHighestPhysicalPage = 0x102,
       MmLowestPhysicalPage = 0x100,
       MiNumberOfFreePages = 3,
       MiEarlyAllocCount = 3,
       MiEarlyAllocBase = 0x100,
       MiNumberDescriptors = 1,
       MxFreeDescriptor = Some 0,
       MxOldFreeDescriptor = \<lparr>MemoryType = LoaderFree, BasePage = 0x100, PageCount = 3\<rparr> \<rparr>"

definition S2_descriptors :: "MEMORY_ALLOCATION_DESCRIPTOR list" where
  "S2_descriptors =
     [\<lparr>MemoryType = LoaderFirmwarePermanent, BasePage = 0x2000, PageCount = 5\<rparr>,
      \<lparr>MemoryType = LoaderFree, BasePage = 0x10, PageCount = 0x10\<rparr>,
      \<lparr>MemoryType = LoaderBad, BasePage = 0x20, PageCount = 1\<rparr>,
      \<lparr>MemoryType = LoaderSystemCode, BasePage = 0x21, PageCount = 7\<rparr>]"

definition S2_scanned :: mm_globals where
  "S2_scanned =
     \<lparr> MmNumberOfPhysicalPages = 0x17,
       MmHighestPhysicalPage = 0x27,
       MmLowestPhysicalPage = 0x10,
       MiNumberOfFreePages = 0x10,
       MiEarlyAllocCount = 0x10,
       MiEarlyAllocBase = 0x10,
       MiNumberDescriptors = 4,
       MxFreeDescriptor = Some 1,
       MxOldFreeDescriptor = \<lparr>MemoryType = LoaderFree, BasePage = 0x10, PageCount = 0x10\<rparr> \<rparr>"

subsection \<open>Constants of the platform headers\<close>

text \<open>
  Modelled from the spec: \<open>PAGE_SIZE\<close>, \<open>PAGE_SHIFT\<close>, \<open>_1KB\<close> and \<open>_1MB\<close> are macros of
  headers outside the file; the specification fixes \<open>page_size = 4096\<close>.
\<close>

definition PAGE_SHIFT :: nat where
  "PAGE_SHIFT = 12"

definition PAGE_SIZE :: ULONG where
  "PAGE_SIZE = 4096"

definition MB :: ULONG where
  "MB = 1024 * 1024"

text \<open>
  \<open>ASSERT\<close> is a macro of the same headers. A checked build stops at a failed
  assertion; a free build compiles the assertion away and goes on. The functions below
  take the build as the parameter \<open>dbg\<close> (\<open>True\<close> for a checked build).
\<close>

subsection \<open>MiInitializeMemoryEvents: the memory thresholds\<close>

record memory_thresholds =
  MmLowMemoryThreshold :: PFN_NUMBER
  MmHighMemoryThreshold :: PFN_NUMBER

text \<open>
  The part of \<open>MiInitializeMemoryEvents\<close> that computes the two thresholds, before the
  events are created. On entry the two globals hold the registry settings (in megabytes),
  or zero.
\<close>

definition MiInitializeMemoryEvents_thresholds ::
  "bool \<Rightarrow> PFN_NUMBER \<Rightarrow> PFN_NUMBER \<Rightarrow> memory_thresholds \<Rightarrow> fault + memory_thresholds" where
  "MiInitializeMemoryEvents_thresholds dbg plenty_free_pages number_of_physical_pages s =
     (let low =
            (if MmLowMemoryThreshold s \<noteq> 0
             then MmLowMemoryThreshold s * (MB div PAGE_SIZE)
             else
               let l0 = plenty_free_pages;
                   l1 = (if number_of_physical_pages > 0x40000
                         then (32 * MB) div PAGE_SIZE
                              + drop_bit 7 (number_of_physical_pages - 0x40000)
                         else if number_of_physical_pages > 0x8000
                         then l0 + drop_bit 5 (number_of_physical_pages - 0x8000)
                         else l0)
               in min l1 ((64 * MB) div PAGE_SIZE))
      in
      if MmHighMemoryThreshold s \<noteq> 0 then
        Inr \<lparr> MmLowMemoryThreshold = low,
              MmHighMemoryThreshold = max (MmHighMemoryThreshold s * (MB div PAGE_SIZE)) low \<rparr>
      else if dbg \<and> \<not> (3 * low > low) then Inl AssertionFailure
      else
        Inr \<lparr> MmLowMemoryThreshold = low,
              MmHighMemoryThreshold = max (3 * low) low \<rparr>)"

subsection \<open>MiComputeColorInformation\<close>

text \<open>
  \<open>MI_SECONDARY_COLORS\<close>, \<open>MI_MIN_SECONDARY_COLORS\<close> and \<open>MI_MAX_SECONDARY_COLORS\<close> are
  macros of \<open>miarm.h\<close>, which is not part of the file: they are parameters.
\<close>

record color_limits =
  MI_SECONDARY_COLORS :: ULONG
  MI_MIN_SECONDARY_COLORS :: ULONG
  MI_MAX_SECONDARY_COLORS :: ULONG

record color_information =
  MmSecondaryColors :: ULONG
  MmSecondaryColorMask :: ULONG

text \<open>
  \<open>colors0\<close> is \<open>MmSecondaryColors\<close> on entry (a registry setting, or zero); the cache size
  and associativity are read from the processor control region.
\<close>

definition MiComputeColorInformation ::
  "color_limits \<Rightarrow> ULONG \<Rightarrow> ULONG \<Rightarrow> ULONG \<Rightarrow> color_information" where
  "MiComputeColorInformation lim colors0 SecondLevelCacheSize SecondLevelCacheAssociativity =
     (let c1 = (if colors0 = 0
                then (if SecondLevelCacheAssociativity \<noteq> 0
                      then SecondLevelCacheSize div SecondLevelCacheAssociativity
                      else SecondLevelCacheSize)
                else colors0);
          c2 = drop_bit PAGE_SHIFT c1;
          c3 = (if c2 = 0 then MI_SECONDARY_COLORS lim
                else
                  let c4 = (if c2 > MI_MAX_SECONDARY_COLORS lim
                            then MI_MAX_SECONDARY_COLORS lim else c2);
                      c5 = (if c4 < MI_MIN_SECONDARY_COLORS lim
                            then MI_SECONDARY_COLORS lim else c4)
                  in if c5 AND (c5 - 1) \<noteq> 0 then MI_SECONDARY_COLORS lim else c5)
      in \<lparr> MmSecondaryColors = c3, MmSecondaryColorMask = c3 - 1 \<rparr>)"

subsection \<open>The threshold formula of the specification\<close>

text \<open>
  The low memory threshold in the words of the specification, on natural numbers:
  \<open>plenty_free_pages\<close> by default; above 1 GiB of memory, 32 MiB of pages plus
  \<open>(pages - 256K) >> 7\<close>; above 128 MiB, \<open>plenty_free_pages + ((pages - 32K) >> 5)\<close>;
  at most 64 MiB of pages.
\<close>

definition low_memory_threshold_spec :: "nat \<Rightarrow> nat \<Rightarrow> nat" where
  "low_memory_threshold_spec plenty pages =
     min (if pages > 0x40000 then (32 * 1024 * 1024) div 4096 + (pages - 0x40000) div 2 ^ 7
          else if pages > 0x8000 then plenty + (pages - 0x8000) div 2 ^ 5
          else plenty)
         ((64 * 1024 * 1024) div 4096)"

text \<open>
  The raw number of colors of the specification: the cache bytes of one way, in pages
  (the registry value \<open>colors0\<close>, when set, takes the place of the cache bytes).
\<close>

definition raw_colors :: "ULONG \<Rightarrow> ULONG \<Rightarrow> ULONG \<Rightarrow> ULONG" where
  "raw_colors colors0 cache_size associativity =
     drop_bit PAGE_SHIFT
       (if colors0 = 0
        then (if associativity \<noteq> 0 then cache_size div associativity else cache_size)
        else colors0)"

text \<open>The limits of the page-color computation used in the examples.\<close>

definition example_color_limits :: color_limits where
  "example_color_limits =
     \<lparr> MI_SECONDARY_COLORS = 64, MI_MIN_SECONDARY_COLORS = 8, MI_MAX_SECONDARY_COLORS = 1024 \<rparr>"

subsection \<open>MmInitializeMemoryLimits\<close>

record PHYSICAL_MEMORY_RUN =
  Run_BasePage :: PFN_NUMBER
  Run_PageCount :: PFN_NUMBER

record PHYSICAL_MEMORY_DESCRIPTOR =
  NumberOfRuns :: ULONG
  NumberOfPages :: PFN_NUMBER
  Run :: "PHYSICAL_MEMORY_RUN list"

text \<open>
  The state of the loop: the runs written so far (\<open>Buffer->Run[0 .. Run - 1]\<close>, so the
  local \<open>Run\<close> is the length of the list), \<open>NextPage\<close> and \<open>PageCount\<close>. The buffer holds
  \<open>capacity\<close> runs (\<open>MiNumberDescriptors\<close> of them); a write to \<open>Run[Run]\<close> at the
  capacity lands outside the buffer. With \<open>Run = 0\<close> the index \<open>Run - 1\<close> is \<open>0xFFFFFFFF\<close>,
  and with 32-bit addresses \<open>Buffer->Run[Run - 1]\<close> is the eight bytes before \<open>Run[0]\<close>: the
  header of the block itself, whose two fields the function assigns again before it
  returns. So a descriptor merged while there is no run leaves the runs as they are, and
  only \<open>NextPage\<close> and \<open>PageCount\<close> move on.
\<close>

type_synonym limits_state = "PHYSICAL_MEMORY_RUN list \<times> PFN_NUMBER \<times> PFN_NUMBER"

definition limits_descriptor ::
  "bool \<Rightarrow> nat \<Rightarrow> (TYPE_OF_MEMORY \<Rightarrow> bool) \<Rightarrow> MEMORY_ALLOCATION_DESCRIPTOR
     \<Rightarrow> limits_state \<Rightarrow> fault + limits_state" where
  "limits_descriptor dbg capacity IncludeType MdBlock st =
     (case st of (runs, NextPage, Count) \<Rightarrow>
        if IncludeType (MemoryType MdBlock) then
          let Count' = Count + PageCount MdBlock in
          if BasePage MdBlock = NextPage then
            if dbg \<and> \<not> (PageCount MdBlock \<noteq> 0) then Inl AssertionFailure
            else if runs = [] then Inr ([], NextPage + PageCount MdBlock, Count')
            else
              Inr (butlast runs @
                     [(last runs)\<lparr>Run_PageCount :=
                        Run_PageCount (last runs) + PageCount MdBlock\<rparr>],
                   NextPage + PageCount MdBlock,
                   Count')
          else
            if capacity \<le> length runs then Inl BufferOverrun
            else
              Inr (runs @ [\<lparr>Run_BasePage = BasePage MdBlock,
                             Run_PageCount = PageCount MdBlock\<rparr>],
                   BasePage MdBlock + PageCount MdBlock,
                   Count')
        else Inr st)"

fun limits_loop ::
  "bool \<Rightarrow> nat \<Rightarrow> (TYPE_OF_MEMORY \<Rightarrow> bool) \<Rightarrow> MEMORY_ALLOCATION_DESCRIPTOR list
     \<Rightarrow> limits_state \<Rightarrow> fault + limits_state" where
  "limits_loop dbg capacity IncludeType [] st = Inr st"
| "limits_loop dbg capacity IncludeType (MdBlock # rest) st =
     (case limits_descriptor dbg capacity IncludeType MdBlock st of
        Inl e \<Rightarrow> Inl e
      | Inr st' \<Rightarrow> limits_loop dbg capacity IncludeType rest st')"

text \<open>
  \<open>pool_available\<close> tells whether the first \<open>ExAllocatePoolWithTag\<close> succeeds; the function
  returns \<open>NULL\<close> (\<open>None\<close>) when it does not. The second allocation only moves the runs
  to a buffer of the right size (or keeps the first buffer), with the same contents.
\<close>

definition MmInitializeMemoryLimits ::
  "bool \<Rightarrow> bool \<Rightarrow> ULONG \<Rightarrow> MEMORY_ALLOCATION_DESCRIPTOR list \<Rightarrow> (TYPE_OF_MEMORY \<Rightarrow> bool)
     \<Rightarrow> fault + PHYSICAL_MEMORY_DESCRIPTOR option" where
  "MmInitializeMemoryLimits dbg pool_available number_descriptors descs IncludeType =
     (if \<not> pool_available then Inr None
      else
        case limits_loop dbg (unat number_descriptors) IncludeType descs ([], - 1, 0) of
          Inl e \<Rightarrow> Inl e
        | Inr (runs, NextPage, Count) \<Rightarrow>
            if dbg \<and> \<not> (of_nat (length runs) \<le> number_descriptors) then Inl AssertionFailure
            else
              Inr (Some \<lparr> NumberOfRuns = of_nat (length runs),
                          NumberOfPages = Count,
                          Run = runs \<rparr>))"

subsection \<open>Runs and descriptors as sets of pages\<close>

definition run_pages :: "PHYSICAL_MEMORY_RUN \<Rightarrow> nat set" where
  "run_pages r = {unat (Run_BasePage r) ..< unat (Run_BasePage r) + unat (Run_PageCount r)}"

definition descriptor_pages :: "MEMORY_ALLOCATION_DESCRIPTOR \<Rightarrow> nat set" where
  "descriptor_pages d = {unat (BasePage d) ..< unat (BasePage d) + unat (PageCount d)}"

definition run_end :: "PHYSICAL_MEMORY_RUN \<Rightarrow> nat" where
  "run_end r = unat (Run_BasePage r) + unat (Run_PageCount r)"

definition descriptor_end :: "MEMORY_ALLOCATION_DESCRIPTOR \<Rightarrow> nat" where
  "descriptor_end d = unat (BasePage d) + unat (PageCount d)"

text \<open>
  Runs sorted by base and maximal: every run is followed by a gap of at least one page
  before the next run begins.
\<close>

fun separated_runs :: "PHYSICAL_MEMORY_RUN list \<Rightarrow> bool" where
  "separated_runs [] = True"
| "separated_runs [r] = True"
| "separated_runs (r # r' # rs) =
     (run_end r < unat (Run_BasePage r') \<and> separated_runs (r' # rs))"

text \<open>Descriptors in ascending order of base that do not overlap.\<close>

fun ascending_descriptors :: "MEMORY_ALLOCATION_DESCRIPTOR list \<Rightarrow> bool" where
  "ascending_descriptors [] = True"
| "ascending_descriptors [d] = True"
| "ascending_descriptors (d # d' # ds) =
     (descriptor_end d \<le> unat (BasePage d') \<and> ascending_descriptors (d' # ds))"

definition proper_descriptor :: "MEMORY_ALLOCATION_DESCRIPTOR \<Rightarrow> bool" where
  "proper_descriptor d = (0 < unat (PageCount d) \<and> descriptor_end d < 2 ^ 32)"

definition include_all :: "TYPE_OF_MEMORY \<Rightarrow> bool" where
  "include_all t = True"

definition S3_descriptors :: "MEMORY_ALLOCATION_DESCRIPTOR list" where
  "S3_descriptors =
     [\<lparr>MemoryType = LoaderFree, BasePage = 0, PageCount = 100\<rparr>,
      \<lparr>MemoryType = LoaderFree, BasePage = 100, PageCount = 100\<rparr>,
      \<lparr>MemoryType = LoaderBootDriver, BasePage = 200, PageCount = 50\<rparr>,
      \<lparr>MemoryType = LoaderFree, BasePage = 250, PageCount = 100\<rparr>]"

definition unordered_descriptors :: "MEMORY_ALLOCATION_DESCRIPTOR list" where
  "unordered_descriptors =
     [\<lparr>MemoryType = LoaderFree, BasePage = 100, PageCount = 100\<rparr>,
      \<lparr>MemoryType = LoaderFree, BasePage = 0, PageCount = 100\<rparr>]"

subsection \<open>MiBuildPagedPool\<close>

text \<open>
  Modelled from the spec: the bitmap routines \<open>RtlInitializeBitMap\<close>, \<open>RtlSetAllBits\<close>,
  \<open>RtlClearBits\<close> and \<open>RtlClearAllBits\<close> belong to the runtime library, outside the file.
  A bitmap is its length and its bits; setting or clearing all bits touches the bits
  below the length, clearing a range touches the bits of the range that lie below the
  length.
\<close>

record RTL_BITMAP =
  SizeOfBitMap :: ULONG
  Buffer :: "nat \<Rightarrow> bool"

definition RtlInitializeBitMap :: "(nat \<Rightarrow> bool) \<Rightarrow> ULONG \<Rightarrow> RTL_BITMAP" where
  "RtlInitializeBitMap memory size_in_bits = \<lparr> SizeOfBitMap = size_in_bits, Buffer = memory \<rparr>"

definition RtlSetAllBits :: "RTL_BITMAP \<Rightarrow> RTL_BITMAP" where
  "RtlSetAllBits b = b\<lparr>Buffer := (\<lambda>i. if i < unat (SizeOfBitMap b) then True else Buffer b i)\<rparr>"

definition RtlClearAllBits :: "RTL_BITMAP \<Rightarrow> RTL_BITMAP" where
  "RtlClearAllBits b = b\<lparr>Buffer := (\<lambda>i. if i < unat (SizeOfBitMap b) then False else Buffer b i)\<rparr>"

definition RtlClearBits :: "RTL_BITMAP \<Rightarrow> ULONG \<Rightarrow> ULONG \<Rightarrow> RTL_BITMAP" where
  "RtlClearBits b start n =
     b\<lparr>Buffer := (\<lambda>i. if unat start \<le> i \<and> i < unat start + unat n \<and> i < unat (SizeOfBitMap b)
                      then False else Buffer b i)\<rparr>"

text \<open>
  Constants of headers outside the file: \<open>MI_MIN_INIT_PAGED_POOLSIZE\<close> is the 32 MB the
  comment in the function names; on the 32-bit build \<open>RTL_BITMAP\<close> takes 8 bytes (a
  \<open>ULONG\<close> and a pointer) and a \<open>ULONG\<close> takes 4.
\<close>

definition MI_MIN_INIT_PAGED_POOLSIZE :: ULONG where
  "MI_MIN_INIT_PAGED_POOLSIZE = 32 * MB"

definition sizeof_RTL_BITMAP :: ULONG where
  "sizeof_RTL_BITMAP = 8"

definition sizeof_ULONG :: ULONG where
  "sizeof_ULONG = 4"

definition BYTES_TO_PAGES :: "ULONG \<Rightarrow> ULONG" where
  "BYTES_TO_PAGES n =
     drop_bit PAGE_SHIFT n + (if n AND (PAGE_SIZE - 1) \<noteq> 0 then 1 else 0)"

text \<open>
  What the function reads: three globals set by the layout code, and the outcome of the
  calls into other subsystems (whether \<open>MiReserveSystemPtes\<close> and the two pool
  allocations return a pointer, and the contents of the memory they return).
\<close>

record paged_pool_env =
  MmMaximumNonPagedPoolInBytes :: ULONG
  MmNonPagedSystemStart :: ULONG
  MmPagedPoolStart :: ULONG
  system_pte_reserved :: bool
  allocation_map_allocated :: bool
  allocation_map_memory :: "nat \<Rightarrow> bool"
  end_map_allocated :: bool
  end_map_memory :: "nat \<Rightarrow> bool"

record paged_pool =
  MmSizeOfPagedPoolInBytes :: ULONG
  MmSizeOfPagedPoolInPages :: PFN_NUMBER
  MmPagedPoolEnd :: ULONG
  PagedPoolAllocationMap :: RTL_BITMAP
  EndOfPagedPoolBitmap :: RTL_BITMAP
  MiLowPagedPoolThreshold :: PFN_NUMBER
  MiHighPagedPoolThreshold :: PFN_NUMBER

text \<open>
  The first four values of the local \<open>Size\<close> of \<open>MiBuildPagedPool\<close>: the size of the pool
  in bytes (twice the maximum nonpaged pool, at most the room below the nonpaged system
  area, at least \<open>MI_MIN_INIT_PAGED_POOLSIZE\<close>), then in pages, then the number of page
  tables (of 1024 entries) needed for these pages.
\<close>

definition paged_pool_page_tables :: "paged_pool_env \<Rightarrow> ULONG" where
  "paged_pool_page_tables env =
     (let bytes0 = 2 * MmMaximumNonPagedPoolInBytes env;
          bytes1 = (if bytes0 > MmNonPagedSystemStart env - MmPagedPoolStart env
                    then MmNonPagedSystemStart env - MmPagedPoolStart env
                    else bytes0);
          Size1 = (if bytes1 < MI_MIN_INIT_PAGED_POOLSIZE
                   then MI_MIN_INIT_PAGED_POOLSIZE else bytes1);
          Size2 = BYTES_TO_PAGES Size1
      in (Size2 + (1024 - 1)) div 1024)"

text \<open>
  The sizes, the two bitmaps and the two thresholds of \<open>MiBuildPagedPool\<close>. The local
  \<open>Size\<close> is assigned again and again: \<open>Size3\<close>, \<open>Size4\<close> and \<open>Size5\<close> are its later values
  (page tables, pages, bytes of one bitmap with its header), and the thresholds are
  computed from the last one. The page directory entries and the PFN entry of the first
  page table are written through routines of other files and are not part of the result.
  A null pointer from \<open>MiReserveSystemPtes\<close> or from the pool fails the assertion on a
  checked build and is written through on a free build.
\<close>

definition MiBuildPagedPool :: "bool \<Rightarrow> paged_pool_env \<Rightarrow> fault + paged_pool" where
  "MiBuildPagedPool dbg env =
     (if \<not> system_pte_reserved env
      then Inl (if dbg then AssertionFailure else NullPointerDereference)
      else
        let Size3 = paged_pool_page_tables env;
            bytes = Size3 * PAGE_SIZE * 1024;
            pages = drop_bit PAGE_SHIFT bytes
        in
        if dbg \<and> \<not> (bytes + MmPagedPoolStart env \<le> MmNonPagedSystemStart env)
        then Inl AssertionFailure
        else
          let Size4 = Size3 * 1024 in
          if dbg \<and> \<not> (Size4 = pages) then Inl AssertionFailure
          else
            let BitMapSize = Size4;
                Size5 = sizeof_RTL_BITMAP + ((Size4 + 31) div 32) * sizeof_ULONG
            in
            if \<not> allocation_map_allocated env
            then Inl (if dbg then AssertionFailure else NullPointerDereference)
            else if \<not> end_map_allocated env
            then Inl (if dbg then AssertionFailure else NullPointerDereference)
            else
              let low = min (drop_bit PAGE_SHIFT (30 * MB)) (Size5 div 5);
                  high = min (drop_bit PAGE_SHIFT (60 * MB)) ((Size5 * 2) div 5)
              in
              if dbg \<and> \<not> (low < high) then Inl AssertionFailure
              else
                Inr \<lparr> MmSizeOfPagedPoolInBytes = bytes,
                      MmSizeOfPagedPoolInPages = pages,
                      MmPagedPoolEnd = MmPagedPoolStart env + bytes - 1,
                      PagedPoolAllocationMap =
                        RtlClearBits
                          (RtlSetAllBits
                            (RtlInitializeBitMap (allocation_map_memory env) BitMapSize))
                          0 1024,
                      EndOfPagedPoolBitmap =
                        RtlClearAllBits
                          (RtlInitializeBitMap (end_map_memory env) BitMapSize),
                      MiLowPagedPoolThreshold = low,
                      MiHighPagedPoolThreshold = high \<rparr>)"

definition example_pool_env :: paged_pool_env where
  "example_pool_env =
     \<lparr> MmMaximumNonPagedPoolInBytes = 0x8000000,
       MmNonPagedSystemStart = 0xEB000000,
       MmPagedPoolStart = 0xE1000000,
       system_pte_reserved = True,
       allocation_map_allocated = True,
       allocation_map_memory = (\<lambda>i. False),
       end_map_allocated = True,
       end_map_memory = (\<lambda>i. True) \<rparr>"

subsection \<open>The PFN database\<close>

datatype MI_PFN_CACHE_ATTRIBUTE = MiNonCached | MiCached | MiWriteCombined | MiNotMapped

text \<open>A page table entry: the valid bit and the page frame number; the other bits play no role here.\<close>

record MMPTE =
  Valid :: bool
  PageFrameNumber :: PFN_NUMBER

text \<open>
  A PFN entry, with the fields the file writes. \<open>u1\<close> is the union of \<open>Flink\<close> and
  \<open>WsIndex\<close>, \<open>u2\<close> the union of \<open>Blink\<close> and \<open>ShareCount\<close>; \<open>PteAddress\<close> is kept as the
  virtual page number the entry's PTE maps (\<open>None\<close> for a null pointer).
\<close>

record MMPFN =
  u1 :: ULONG
  PteAddress :: "nat option"
  u2 :: ULONG
  PageLocation :: MMLISTS
  CacheAttribute :: MI_PFN_CACHE_ATTRIBUTE
  Rom :: bool
  PrototypePte :: bool
  ReferenceCount :: "16 word"
  InPageError :: bool
  PteFrame :: PFN_NUMBER
  OriginalPte :: MMPTE

text \<open>The entry of a page that \<open>RtlZeroMemory\<close> has just cleared.\<close>

definition zero_MMPFN :: MMPFN where
  "zero_MMPFN =
     \<lparr> u1 = 0, PteAddress = None, u2 = 0, PageLocation = ZeroedPageList,
       CacheAttribute = MiNonCached, Rom = False, PrototypePte = False,
       ReferenceCount = 0, InPageError = False, PteFrame = 0,
       OriginalPte = \<lparr>Valid = False, PageFrameNumber = 0\<rparr> \<rparr>"

record MMCOLOR_TABLES =
  Flink :: ULONG
  Blink :: ULONG
  Count :: ULONG

definition LIST_HEAD :: ULONG where
  "LIST_HEAD = 0xFFFFFFFF"

text \<open>
  Where the PFN database lies: the address in \<open>MmPfnDatabase\<close>, the sizes of \<open>MMPFN\<close> and
  of \<open>MMCOLOR_TABLES\<close>, and the virtual page number of the first page table (the page
  tables map themselves, so the entry of page directory slot \<open>k\<close> is the page table entry
  of page \<open>page_tables_vpn + k\<close>). All four come from headers outside the file and are
  parameters.
\<close>

record pfn_layout =
  MmPfnDatabase_va :: ULONG
  sizeof_MMPFN :: ULONG
  sizeof_MMCOLOR_TABLES :: ULONG
  page_tables_vpn :: nat

text \<open>
  The state of the memory manager while the database is built: the globals of the
  scanner, the number of colors and the mask, the PFN entries by page frame number, the
  page table entries by virtual page number, and the two arrays of color list heads
  (\<open>MmFreePagesByColor[ZeroedPageList]\<close> and \<open>MmFreePagesByColor[FreePageList]\<close>).
\<close>

record mm_state = mm_globals +
  colors :: color_information
  MmPfnDatabase :: "PFN_NUMBER \<Rightarrow> MMPFN"
  page_table :: "nat \<Rightarrow> MMPTE"
  MmFreePagesByColor :: "MMLISTS \<Rightarrow> ULONG \<Rightarrow> MMCOLOR_TABLES"

definition vpn_of :: "ULONG \<Rightarrow> nat" where
  "vpn_of va = unat (drop_bit PAGE_SHIFT va)"

definition pfn_entry_va :: "pfn_layout \<Rightarrow> PFN_NUMBER \<Rightarrow> ULONG" where
  "pfn_entry_va L i = MmPfnDatabase_va L + i * sizeof_MMPFN L"

text \<open>
  Clearing the page at virtual page number \<open>v\<close> clears the PFN entries stored in it. An
  entry that straddles two pages is taken as cleared with either of them: the two pages
  are mapped and cleared in the same pass, unless one of them was mapped beforehand.
\<close>

definition entry_in_page :: "pfn_layout \<Rightarrow> PFN_NUMBER \<Rightarrow> nat \<Rightarrow> bool" where
  "entry_in_page L i v =
     (vpn_of (pfn_entry_va L i) \<le> v \<and> v \<le> vpn_of (pfn_entry_va L (i + 1) - 1))"

definition zero_page :: "pfn_layout \<Rightarrow> nat \<Rightarrow> mm_state \<Rightarrow> mm_state" where
  "zero_page L v s =
     s\<lparr>MmPfnDatabase := (\<lambda>i. if entry_in_page L i v then zero_MMPFN else MmPfnDatabase s i)\<rparr>"

text \<open>
  The loop \<open>while (PointerPte <= LastPte)\<close> of \<open>MiMapPfnDatabase\<close> and of
  \<open>MiInitializeColorTables\<close>, over the virtual page numbers of the PTEs: an entry that is
  not valid gets one page of the early allocator, and the page it maps is cleared.
\<close>

fun map_pages ::
  "pfn_layout \<Rightarrow> MEMORY_ALLOCATION_DESCRIPTOR list \<Rightarrow> nat list \<Rightarrow> mm_state
     \<Rightarrow> fault + mm_state" where
  "map_pages L descs [] s = Inr s"
| "map_pages L descs (v # vs) s =
     (if Valid (page_table s v) then map_pages L descs vs s
      else
        case MiEarlyAllocPages descs 1 s of
          Inl e \<Rightarrow> Inl e
        | Inr (p, s1) \<Rightarrow>
            map_pages L descs vs
              (zero_page L v
                 (s1\<lparr>page_table :=
                       (page_table s1)(v := \<lparr>Valid = True, PageFrameNumber = p\<rparr>)\<rparr>)))"

subsection \<open>MiInsertPageInFreeList\<close>

text \<open>
  Modelled from the spec: \<open>MiInsertPageInFreeList\<close> is defined in another file. The
  specification gives its contract: the frame goes onto the free list of its color
  (the frame number masked by the color mask), insertion is LIFO, the lists are linked
  through \<open>flink\<close> with the sentinel \<open>0xFFFFFFFF\<close>, and a frame on a free list has the
  page location \<open>Free\<close>, share count 0 and reference count 0.
\<close>

definition MiInsertPageInFreeList :: "PFN_NUMBER \<Rightarrow> mm_state \<Rightarrow> mm_state" where
  "MiInsertPageInFreeList PageFrameIndex s =
     (let Color = PageFrameIndex AND MmSecondaryColorMask (colors s);
          ColorTable = MmFreePagesByColor s FreePageList Color;
          Pfn1 = (MmPfnDatabase s PageFrameIndex)
                   \<lparr>u1 := Flink ColorTable, u2 := 0, PageLocation := FreePageList,
                    ReferenceCount := 0\<rparr>
      in s\<lparr>MmPfnDatabase := (MmPfnDatabase s)(PageFrameIndex := Pfn1),
           MmFreePagesByColor :=
             (MmFreePagesByColor s)
               (FreePageList :=
                  (MmFreePagesByColor s FreePageList)
                    (Color := ColorTable\<lparr>Flink := PageFrameIndex,
                                           Blink := (if Flink ColorTable = LIST_HEAD
                                                     then PageFrameIndex
                                                     else Blink ColorTable),
                                           Count := Count ColorTable + 1\<rparr>))\<rparr>)"

text \<open>
  The pages of a color's free list, read from the list head: follow \<open>flink\<close> from the
  head, \<open>Count\<close> times at most, up to the sentinel.
\<close>

fun follow_flink :: "nat \<Rightarrow> (PFN_NUMBER \<Rightarrow> MMPFN) \<Rightarrow> ULONG \<Rightarrow> PFN_NUMBER list" where
  "follow_flink 0 db p = []"
| "follow_flink (Suc n) db p =
     (if p = LIST_HEAD then [] else p # follow_flink n db (u1 (db p)))"

definition color_free_list :: "mm_state \<Rightarrow> ULONG \<Rightarrow> PFN_NUMBER list" where
  "color_free_list s c =
     follow_flink (unat (Count (MmFreePagesByColor s FreePageList c)))
       (MmPfnDatabase s) (Flink (MmFreePagesByColor s FreePageList c))"

subsection \<open>MiMapPfnDatabase\<close>

text \<open>
  \<open>MiGetPfnEntry\<close> (of \<open>miarm.h\<close>) is taken as the address of \<open>MmPfnDatabase[index]\<close>, so
  \<open>Pfn1\<close> and \<open>PageFrameIndex\<close> walk together. Each \<open>while (PageCount--)\<close> loop runs
  \<open>PageCount\<close> times: the first argument of the three functions below.
\<close>

fun insert_free_pages :: "nat \<Rightarrow> PFN_NUMBER \<Rightarrow> mm_state \<Rightarrow> mm_state" where
  "insert_free_pages 0 PageFrameIndex s = s"
| "insert_free_pages (Suc n) PageFrameIndex s =
     insert_free_pages n (PageFrameIndex - 1)
       (MiInsertPageInFreeList PageFrameIndex
          (s\<lparr>MmPfnDatabase :=
               (MmPfnDatabase s)
                 (PageFrameIndex :=
                    (MmPfnDatabase s PageFrameIndex)\<lparr>CacheAttribute := MiNonCached\<rparr>)\<rparr>))"

fun rom_pages :: "nat \<Rightarrow> PFN_NUMBER \<Rightarrow> mm_state \<Rightarrow> mm_state" where
  "rom_pages 0 i s = s"
| "rom_pages (Suc n) i s =
     rom_pages n (i + 1)
       (s\<lparr>MmPfnDatabase :=
            (MmPfnDatabase s)
              (i := (MmPfnDatabase s i)
                      \<lparr>PteAddress := None, u1 := 0, u2 := 0,
                       PageLocation := ZeroedPageList, CacheAttribute := MiNonCached,
                       Rom := True, PrototypePte := True, ReferenceCount := 0,
                       InPageError := False, PteFrame := 0\<rparr>)\<rparr>)"

fun active_pages :: "nat \<Rightarrow> PFN_NUMBER \<Rightarrow> mm_state \<Rightarrow> mm_state" where
  "active_pages 0 i s = s"
| "active_pages (Suc n) i s =
     active_pages n (i + 1)
       (s\<lparr>MmPfnDatabase :=
            (MmPfnDatabase s)
              (i := (MmPfnDatabase s i)
                      \<lparr>PteFrame := 0, PteAddress := None, u2 := u2 (MmPfnDatabase s i) + 1,
                       ReferenceCount := 1, PageLocation := ActiveAndValid,
                       CacheAttribute := MiNonCached\<rparr>)\<rparr>)"

text \<open>
  The body of the loop over the descriptors, for the descriptor at position \<open>i\<close>. After
  the message about damaged RAM the code has \<open>ASSERT(FALSE)\<close> and nothing else: a checked
  build stops there, a free build goes on to the branches below.
\<close>

definition map_descriptor ::
  "bool \<Rightarrow> pfn_layout \<Rightarrow> MEMORY_ALLOCATION_DESCRIPTOR list \<Rightarrow> MEMORY_ALLOCATION_DESCRIPTOR
     \<Rightarrow> nat \<Rightarrow> mm_state \<Rightarrow> fault + mm_state" where
  "map_descriptor dbg L descs MdBlock i s =
     (if \<not> MiIsMemoryTypeInDatabase (MemoryType MdBlock) then Inr s
      else
        case map_pages L descs
               [vpn_of (pfn_entry_va L (BasePage MdBlock))
                  ..< Suc (vpn_of (pfn_entry_va L (BasePage MdBlock + PageCount MdBlock) - 1))]
               s of
          Inl e \<Rightarrow> Inl e
        | Inr s1 \<Rightarrow>
            if MxFreeDescriptor s1 = Some i then Inr s1
            else if MemoryType MdBlock = LoaderBad \<and> dbg then Inl AssertionFailure
            else if MiIsMemoryTypeFree (MemoryType MdBlock) then
              Inr (insert_free_pages (unat (PageCount MdBlock))
                     (BasePage MdBlock + PageCount MdBlock - 1) s1)
            else if MemoryType MdBlock = LoaderXIPRom then
              Inr (rom_pages (unat (PageCount MdBlock)) (BasePage MdBlock) s1)
            else
              Inr (active_pages (unat (PageCount MdBlock)) (BasePage MdBlock) s1))"

fun map_descriptors ::
  "bool \<Rightarrow> pfn_layout \<Rightarrow> MEMORY_ALLOCATION_DESCRIPTOR list
     \<Rightarrow> MEMORY_ALLOCATION_DESCRIPTOR list \<Rightarrow> nat \<Rightarrow> mm_state \<Rightarrow> fault + mm_state" where
  "map_descriptors dbg L descs [] i s = Inr s"
| "map_descriptors dbg L descs (MdBlock # rest) i s =
     (case map_descriptor dbg L descs MdBlock i s of
        Inl e \<Rightarrow> Inl e
      | Inr s1 \<Rightarrow> map_descriptors dbg L descs rest (Suc i) s1)"

definition MiMapPfnDatabase ::
  "bool \<Rightarrow> pfn_layout \<Rightarrow> MEMORY_ALLOCATION_DESCRIPTOR list \<Rightarrow> mm_state
     \<Rightarrow> fault + mm_state" where
  "MiMapPfnDatabase dbg L descs s =
     (case map_descriptors dbg L descs descs 0 s of
        Inl e \<Rightarrow> Inl e
      | Inr s1 \<Rightarrow>
          Inr (insert_free_pages (unat (MiEarlyAllocCount s1))
                 (MiEarlyAllocBase s1 + MiEarlyAllocCount s1 - 1) s1))"

subsection \<open>MiInitializeColorTables\<close>

text \<open>The loop \<open>for (i = 0; i < MmSecondaryColors; i++)\<close>, with \<open>n\<close> iterations left.\<close>

fun empty_color_tables :: "nat \<Rightarrow> ULONG \<Rightarrow> mm_state \<Rightarrow> mm_state" where
  "empty_color_tables 0 i s = s"
| "empty_color_tables (Suc n) i s =
     empty_color_tables n (i + 1)
       (s\<lparr>MmFreePagesByColor :=
            (MmFreePagesByColor s)
              (ZeroedPageList :=
                 (MmFreePagesByColor s ZeroedPageList)
                   (i := \<lparr>Flink = 0xFFFFFFFF, Blink = 0xFFFFFFFF, Count = 0\<rparr>),
               FreePageList :=
                 (MmFreePagesByColor s FreePageList)
                   (i := \<lparr>Flink = 0xFFFFFFFF, Blink = 0xFFFFFFFF, Count = 0\<rparr>))\<rparr>)"


subsection \<open>The passes over the page tables\<close>









subsection \<open>MiInitializePfnDatabase\<close>


text \<open>
  The state in which the kernel enters the scanner: the boot values of the globals, and
  the colors, PFN memory, page tables and color list heads that are given.
\<close>

definition boot_state ::
  "color_information \<Rightarrow> (PFN_NUMBER \<Rightarrow> MMPFN) \<Rightarrow> (nat \<Rightarrow> MMPTE)
     \<Rightarrow> (MMLISTS \<Rightarrow> ULONG \<Rightarrow> MMCOLOR_TABLES) \<Rightarrow> mm_state" where
  "boot_state c db pt heads =
     \<lparr> MmNumberOfPhysicalPages = 0,
       MmHighestPhysicalPage = 0,
       MmLowestPhysicalPage = - 1,
       MiNumberOfFreePages = 0,
       MiEarlyAllocCount = 0,
       MiEarlyAllocBase = 0,
       MiNumberDescriptors = 0,
       MxFreeDescriptor = None,
       MxOldFreeDescriptor =
         \<lparr> MemoryType = LoaderExceptionBlock, BasePage = 0, PageCount = 0 \<rparr>,
       colors = c,
       MmPfnDatabase = db,
       page_table = pt,
       MmFreePagesByColor = heads \<rparr>"

definition x86_layout :: pfn_layout where
  "x86_layout =
     \<lparr> MmPfnDatabase_va = 0xB0000000, sizeof_MMPFN = 24, sizeof_MMCOLOR_TABLES = 12,
       page_tables_vpn = 0xC0000 \<rparr>"

text \<open>Page tables in which only the page directory itself and the table of the database are mapped.\<close>

definition example_page_table :: "nat \<Rightarrow> MMPTE" where
  "example_page_table v =
     (if v = 0xC0300 then \<lparr>Valid = True, PageFrameNumber = 0x200\<rparr>
      else if v = 0xC02C0 then \<lparr>Valid = True, PageFrameNumber = 0x201\<rparr>
      else \<lparr>Valid = False, PageFrameNumber = 0\<rparr>)"

definition example_heads :: "MMLISTS \<Rightarrow> ULONG \<Rightarrow> MMCOLOR_TABLES" where
  "example_heads l c = \<lparr>Flink = 0xFFFFFFFF, Blink = 0xFFFFFFFF, Count = 0\<rparr>"

definition bad_ram_descriptors :: "MEMORY_ALLOCATION_DESCRIPTOR list" where
  "bad_ram_descriptors =
     [\<lparr>MemoryType = LoaderFree, BasePage = 0, PageCount = 4\<rparr>,
      \<lparr>MemoryType = LoaderBad, BasePage = 4, PageCount = 1\<rparr>,
      \<lparr>MemoryType = LoaderFree, BasePage = 5, PageCount = 2\<rparr>]"

definition bad_ram_boot :: mm_state where
  "bad_ram_boot =
     boot_state \<lparr>MmSecondaryColors = 8, MmSecondaryColorMask = 7\<rparr>
       (\<lambda>i. zero_MMPFN) example_page_table example_heads"

subsection \<open>The order of a free list\<close>





section \<open>Properties\<close>

subsection \<open>The scanner on a list without a usable free descriptor\<close>

lemma scan_loop_no_free:
  "MxFreeDescriptor s = None \<Longrightarrow>
   \<forall>d \<in> set descs. \<not> (MiIsMemoryTypeFree (MemoryType d) \<and> MiIsMemoryTypeInDatabase (MemoryType d)
                        \<and> PageCount d > MiEarlyAllocCount s) \<Longrightarrow>
   MxFreeDescriptor (scan_loop descs i s) = None"
proof (induction descs arbitrary: i s)
  case Nil
  then show ?case by simp
next
  case (Cons d rest)
  have a: "MxFreeDescriptor (scan_descriptor d i s) = None"
    using Cons.prems by (auto simp: scan_descriptor_def Let_def)
  have b: "MiEarlyAllocCount (scan_descriptor d i s) = MiEarlyAllocCount s"
    using Cons.prems by (auto simp: scan_descriptor_def Let_def)
  show ?case
    using Cons.IH [of "scan_descriptor d i s" "Suc i"] a b Cons.prems by simp
qed

text \<open>
  C10. The claim: the scanner completes normally on every descriptor list, the empty list
  and a list without a free-classified descriptor included. On the code the final
  snapshot reads through \<open>MxFreeDescriptor\<close>, which is still null on such a list.
\<close>

theorem MiScanMemoryDescriptors_null_snapshot:
  "MiScanMemoryDescriptors [] boot_globals = Inl NullPointerDereference
   \<and> MiScanMemoryDescriptors
       [\<lparr>MemoryType = LoaderSystemCode, BasePage = 0, PageCount = 16\<rparr>,
        \<lparr>MemoryType = LoaderFree, BasePage = 16, PageCount = 0\<rparr>] boot_globals
     = Inl NullPointerDereference"
  by (simp add: MiScanMemoryDescriptors_def boot_globals_def scan_descriptor_def
      MiIsMemoryTypeInDatabase_def MiIsMemoryTypeFree_def Let_def)

subsection \<open>The early allocator\<close>

lemma MiEarlyAllocPages_Inr:
  "MiEarlyAllocPages descs n s = Inr (p, s') \<Longrightarrow>
     n \<le> MiEarlyAllocCount s \<and> p = MiEarlyAllocBase s
     \<and> MiEarlyAllocBase s' = MiEarlyAllocBase s + n
     \<and> MiEarlyAllocCount s' = MiEarlyAllocCount s - n"
  by (auto simp: MiEarlyAllocPages_def split: if_splits option.splits)

lemma early_allocs_Inr:
  "early_allocs descs ns s = Inr (ps, s') \<Longrightarrow>
     length ps = length ns
     \<and> (\<forall>k < length ns. ps ! k = MiEarlyAllocBase s + sum_list (take k ns))
     \<and> MiEarlyAllocBase s' = MiEarlyAllocBase s + sum_list ns
     \<and> MiEarlyAllocCount s' = MiEarlyAllocCount s - sum_list ns
     \<and> sum_list (map unat ns) + unat (MiEarlyAllocCount s') = unat (MiEarlyAllocCount s)"
proof (induction ns arbitrary: s ps)
  case Nil
  then show ?case by simp
next
  case (Cons n ns)
  from Cons.prems obtain p s1 ps1 where
    a: "MiEarlyAllocPages descs n s = Inr (p, s1)" and
    r: "early_allocs descs ns s1 = Inr (ps1, s')" and
    ps: "ps = p # ps1"
    by (auto split: sum.splits prod.splits)
  note f = MiEarlyAllocPages_Inr [OF a]
  note ih = Cons.IH [OF r]
  have u: "unat (MiEarlyAllocCount s1) + unat n = unat (MiEarlyAllocCount s)"
    using f by (simp add: unat_sub word_le_nat_alt)
  have idx: "\<forall>k < length (n # ns). ps ! k = MiEarlyAllocBase s + sum_list (take k (n # ns))"
  proof (intro allI impI)
    fix k assume "k < length (n # ns)"
    then show "ps ! k = MiEarlyAllocBase s + sum_list (take k (n # ns))"
      using ih f ps by (cases k) (auto simp: add.assoc)
  qed
  have c1: "length ps = length (n # ns)" using ih ps by simp
  have c3: "MiEarlyAllocBase s' = MiEarlyAllocBase s + sum_list (n # ns)"
    using ih f by (simp add: add.assoc)
  have c4: "MiEarlyAllocCount s' = MiEarlyAllocCount s - sum_list (n # ns)"
    using ih f by (simp add: diff_diff_eq)
  have "sum_list (map unat ns) + unat (MiEarlyAllocCount s') = unat (MiEarlyAllocCount s1)"
    using ih by blast
  then have c5: "sum_list (map unat (n # ns)) + unat (MiEarlyAllocCount s') =
      unat (MiEarlyAllocCount s)"
    using u by simp
  show ?case
    using c1 idx c3 c4 c5 by blast
qed

lemma unat_sum_list_le:
  "unat (sum_list (ws :: 32 word list)) \<le> sum_list (map unat ws)"
proof (induction ws)
  case Nil
  then show ?case by simp
next
  case (Cons w ws)
  have "unat (w + sum_list ws) \<le> unat w + unat (sum_list ws)"
    by (simp add: unat_word_ariths)
  then show ?case using Cons by simp
qed

lemma unat_sum_list_eq:
  "sum_list (map unat (ws :: 32 word list)) < 2 ^ 32 \<Longrightarrow>
   unat (sum_list ws) = sum_list (map unat ws)"
proof (induction ws)
  case Nil
  then show ?case by simp
next
  case (Cons w ws)
  then have ih: "unat (sum_list ws) = sum_list (map unat ws)" by simp
  have "unat (w + sum_list ws) = (unat w + unat (sum_list ws)) mod 2 ^ 32"
    by (simp add: unat_word_ariths)
  then show ?case using Cons.prems ih by simp
qed

lemma sum_list_take_le:
  "sum_list (map unat (take k (ns :: 32 word list))) \<le> sum_list (map unat ns)"
proof -
  have "sum_list (map unat ns) =
        sum_list (map unat (take k ns)) + sum_list (map unat (drop k ns))"
    by (metis append_take_drop_id map_append sum_list_append)
  then show ?thesis by simp
qed

lemma sum_list_take_Suc:
  "k < length (ns :: 32 word list) \<Longrightarrow>
   sum_list (map unat (take (Suc k) ns)) = sum_list (map unat (take k ns)) + unat (ns ! k)"
  by (simp add: take_Suc_conv_app_nth)

lemma sum_list_take_mono:
  "j \<le> k \<Longrightarrow>
   sum_list (map unat (take j (ns :: 32 word list))) \<le> sum_list (map unat (take k ns))"
proof -
  assume "j \<le> k"
  then have "take j ns = take j (take k ns)" by (simp add: min_def)
  then show ?thesis using sum_list_take_le [of j "take k ns"] by simp
qed

lemma early_allocs_unat:
  assumes r: "early_allocs descs ns s = Inr (ps, s')"
    and fit: "unat (MiEarlyAllocBase s) + unat (MiEarlyAllocCount s) < 2 ^ 32"
    and k: "k < length ns"
  shows "unat (ps ! k) = unat (MiEarlyAllocBase s) + sum_list (map unat (take k ns))"
proof -
  note f = early_allocs_Inr [OF r]
  have le: "sum_list (map unat ns) \<le> unat (MiEarlyAllocCount s)" using f by linarith
  have lek: "sum_list (map unat (take k ns)) \<le> unat (MiEarlyAllocCount s)"
    using sum_list_take_le [of k ns] le by linarith
  have a: "unat (sum_list (take k ns)) = sum_list (map unat (take k ns))"
    using unat_sum_list_eq [of "take k ns"] lek fit by simp
  have "ps ! k = MiEarlyAllocBase s + sum_list (take k ns)" using f k by blast
  then have "unat (ps ! k) =
      (unat (MiEarlyAllocBase s) + unat (sum_list (take k ns))) mod 2 ^ 32"
    by (simp add: unat_word_ariths)
  then show ?thesis using a lek fit by simp
qed

text \<open>
  C3. \<open>MiEarlyAllocPages n\<close>, in a state where the scanner has selected a bootstrap
  descriptor: when \<open>n\<close> exceeds \<open>MiEarlyAllocCount\<close> the call ends in the bugcheck
  \<open>INSTALL_MORE_MEMORY\<close> with the arguments (total pages, remaining, page count of the
  bootstrap descriptor, \<open>n\<close>); otherwise it returns the current base, adds \<open>n\<close> to the
  base and subtracts it from the remaining count. Successive successful calls return
  contiguous, pairwise disjoint ranges inside the bootstrap run. With three pages
  remaining in a three-page run, the fourth single-page call has the arguments
  (total, 0, 3, 1).
\<close>

theorem MiEarlyAllocPages_contract:
  assumes fd: "MxFreeDescriptor s = Some i"
  shows
   "(MiEarlyAllocCount s < n \<longrightarrow>
       MiEarlyAllocPages descs n s =
         Inl (KeBugCheckEx INSTALL_MORE_MEMORY (MmNumberOfPhysicalPages s)
                (MiEarlyAllocCount s) (PageCount (descs ! i)) n))
    \<and> (m \<le> MiEarlyAllocCount s \<longrightarrow>
       MiEarlyAllocPages descs m s =
         Inr (MiEarlyAllocBase s,
              s\<lparr>MiEarlyAllocBase := MiEarlyAllocBase s + m,
                MiEarlyAllocCount := MiEarlyAllocCount s - m\<rparr>))
    \<and> (early_allocs descs ns s = Inr (ps, s')
         \<and> unat (MiEarlyAllocBase s) + unat (MiEarlyAllocCount s) < 2 ^ 32 \<longrightarrow>
         length ps = length ns
         \<and> (\<forall>k. Suc k < length ns \<longrightarrow> ps ! Suc k = ps ! k + ns ! k)
         \<and> (\<forall>j k. j < k \<and> k < length ns \<longrightarrow> unat (ps ! j) + unat (ns ! j) \<le> unat (ps ! k))
         \<and> (\<forall>k < length ns.
               unat (MiEarlyAllocBase s) \<le> unat (ps ! k)
               \<and> unat (ps ! k) + unat (ns ! k)
                   \<le> unat (MiEarlyAllocBase s) + unat (MiEarlyAllocCount s)))
    \<and> (MiEarlyAllocCount s = 3 \<and> PageCount (descs ! i) = 3 \<longrightarrow>
         early_allocs descs [1, 1, 1, 1] s =
           Inl (KeBugCheckEx INSTALL_MORE_MEMORY (MmNumberOfPhysicalPages s) 0 3 1))"
proof (intro conjI impI)
  assume "MiEarlyAllocCount s < n"
  then show "MiEarlyAllocPages descs n s =
         Inl (KeBugCheckEx INSTALL_MORE_MEMORY (MmNumberOfPhysicalPages s)
                (MiEarlyAllocCount s) (PageCount (descs ! i)) n)"
    using fd by (simp add: MiEarlyAllocPages_def)
next
  assume "m \<le> MiEarlyAllocCount s"
  then show "MiEarlyAllocPages descs m s =
         Inr (MiEarlyAllocBase s,
              s\<lparr>MiEarlyAllocBase := MiEarlyAllocBase s + m,
                MiEarlyAllocCount := MiEarlyAllocCount s - m\<rparr>)"
    by (simp add: MiEarlyAllocPages_def not_less [symmetric])
next
  assume a: "early_allocs descs ns s = Inr (ps, s')
         \<and> unat (MiEarlyAllocBase s) + unat (MiEarlyAllocCount s) < 2 ^ 32"
  then show "length ps = length ns" using early_allocs_Inr by blast
next
  assume a: "early_allocs descs ns s = Inr (ps, s')
         \<and> unat (MiEarlyAllocBase s) + unat (MiEarlyAllocCount s) < 2 ^ 32"
  note f = early_allocs_Inr [OF conjunct1 [OF a]]
  show "\<forall>k. Suc k < length ns \<longrightarrow> ps ! Suc k = ps ! k + ns ! k"
  proof (intro allI impI)
    fix k assume k: "Suc k < length ns"
    then have "ps ! Suc k = MiEarlyAllocBase s + sum_list (take (Suc k) ns)"
      and "ps ! k = MiEarlyAllocBase s + sum_list (take k ns)"
      using f by auto
    then show "ps ! Suc k = ps ! k + ns ! k"
      using k by (simp add: take_Suc_conv_app_nth add.assoc)
  qed
next
  assume a: "early_allocs descs ns s = Inr (ps, s')
         \<and> unat (MiEarlyAllocBase s) + unat (MiEarlyAllocCount s) < 2 ^ 32"
  show "\<forall>j k. j < k \<and> k < length ns \<longrightarrow> unat (ps ! j) + unat (ns ! j) \<le> unat (ps ! k)"
  proof (intro allI impI)
    fix j k assume jk: "j < k \<and> k < length ns"
    then have j: "j < length ns" by simp
    have "sum_list (map unat (take (Suc j) ns)) \<le> sum_list (map unat (take k ns))"
      using sum_list_take_mono [of "Suc j" k ns] jk by simp
    then show "unat (ps ! j) + unat (ns ! j) \<le> unat (ps ! k)"
      using early_allocs_unat [OF conjunct1 [OF a] conjunct2 [OF a] j]
        early_allocs_unat [OF conjunct1 [OF a] conjunct2 [OF a], of k]
        sum_list_take_Suc [OF j] jk by simp
  qed
next
  assume a: "early_allocs descs ns s = Inr (ps, s')
         \<and> unat (MiEarlyAllocBase s) + unat (MiEarlyAllocCount s) < 2 ^ 32"
  note f = early_allocs_Inr [OF conjunct1 [OF a]]
  have le: "sum_list (map unat ns) \<le> unat (MiEarlyAllocCount s)" using f by linarith
  show "\<forall>k < length ns.
               unat (MiEarlyAllocBase s) \<le> unat (ps ! k)
               \<and> unat (ps ! k) + unat (ns ! k)
                   \<le> unat (MiEarlyAllocBase s) + unat (MiEarlyAllocCount s)"
  proof (intro allI impI)
    fix k assume k: "k < length ns"
    have "sum_list (map unat (take (Suc k) ns)) \<le> sum_list (map unat ns)"
      by (rule sum_list_take_le)
    then show "unat (MiEarlyAllocBase s) \<le> unat (ps ! k)
               \<and> unat (ps ! k) + unat (ns ! k)
                   \<le> unat (MiEarlyAllocBase s) + unat (MiEarlyAllocCount s)"
      using early_allocs_unat [OF conjunct1 [OF a] conjunct2 [OF a] k]
        sum_list_take_Suc [OF k] le by simp
  qed
next
  assume "MiEarlyAllocCount s = 3 \<and> PageCount (descs ! i) = 3"
  then show "early_allocs descs [1, 1, 1, 1] s =
           Inl (KeBugCheckEx INSTALL_MORE_MEMORY (MmNumberOfPhysicalPages s) 0 3 1)"
    using fd by (simp add: MiEarlyAllocPages_def)
qed

lemma S6_scan: "MiScanMemoryDescriptors S6_descriptors boot_globals = Inr S6_scanned"
  by (simp add: MiScanMemoryDescriptors_def S6_descriptors_def S6_scanned_def boot_globals_def
      scan_descriptor_def MiIsMemoryTypeInDatabase_def MiIsMemoryTypeFree_def Let_def)

theorem MiEarlyAllocPages_contract_witness:
  "MxFreeDescriptor S6_scanned = Some 0
   \<and> MiEarlyAllocCount S6_scanned < 4
   \<and> MiEarlyAllocPages S6_descriptors 4 S6_scanned =
       Inl (KeBugCheckEx INSTALL_MORE_MEMORY 3 3 3 4)
   \<and> (2 :: 32 word) \<le> MiEarlyAllocCount S6_scanned
   \<and> MiEarlyAllocPages S6_descriptors 2 S6_scanned =
       Inr (0x100, S6_scanned\<lparr>MiEarlyAllocBase := 0x102, MiEarlyAllocCount := 1\<rparr>)
   \<and> early_allocs S6_descriptors [1, 2] S6_scanned =
       Inr ([0x100, 0x101], S6_scanned\<lparr>MiEarlyAllocBase := 0x103, MiEarlyAllocCount := 0\<rparr>)
   \<and> unat (MiEarlyAllocBase S6_scanned) + unat (MiEarlyAllocCount S6_scanned) < 2 ^ 32
   \<and> MiEarlyAllocCount S6_scanned = 3 \<and> PageCount (S6_descriptors ! 0) = 3
   \<and> early_allocs S6_descriptors [1, 1, 1, 1] S6_scanned =
       Inl (KeBugCheckEx INSTALL_MORE_MEMORY 3 0 3 1)"
  using MiEarlyAllocPages_contract [of S6_scanned 0 4 S6_descriptors 2 "[1, 2]" "[0x100, 0x101]"
      "S6_scanned\<lparr>MiEarlyAllocBase := 0x103, MiEarlyAllocCount := 0\<rparr>"]
  by (simp add: S6_scanned_def S6_descriptors_def MiEarlyAllocPages_def)

subsection \<open>Totals computed by the scanner\<close>

lemma scan_loop_total:
  "MmNumberOfPhysicalPages (scan_loop descs i s) =
     MmNumberOfPhysicalPages s
     + sum_list (map PageCount (filter (\<lambda>d. in_database d \<and> MemoryType d \<noteq> LoaderBad) descs))"
  by (induction descs arbitrary: i s)
     (auto simp: scan_descriptor_def Let_def in_database_def MiIsMemoryTypeInDatabase_def)

lemma Min_insert_min:
  "finite S \<Longrightarrow> Min (insert (min a b) S) = Min (insert a (insert b S))"
  for a :: "'a :: linorder"
  by (cases "S = {}") (simp_all add: min.assoc)

lemma Max_insert_max:
  "finite S \<Longrightarrow> Max (insert (max a b) S) = Max (insert a (insert b S))"
  for a :: "'a :: linorder"
  by (cases "S = {}") (simp_all add: max.assoc)

lemma scan_loop_lowest:
  "MmLowestPhysicalPage (scan_loop descs i s) =
     Min (insert (MmLowestPhysicalPage s) (BasePage ` set (filter in_database descs)))"
proof (induction descs arbitrary: i s)
  case Nil
  then show ?case by simp
next
  case (Cons d rest)
  show ?case
  proof (cases "in_database d")
    case True
    then have "MmLowestPhysicalPage (scan_descriptor d i s) =
        min (MmLowestPhysicalPage s) (BasePage d)"
      by (auto simp: scan_descriptor_def Let_def in_database_def MiIsMemoryTypeInDatabase_def)
    then show ?thesis
      using Cons [of "Suc i" "scan_descriptor d i s"] True
      by (simp add: Min_insert_min del: Min_insert)
  next
    case False
    then have "MmLowestPhysicalPage (scan_descriptor d i s) = MmLowestPhysicalPage s"
      by (auto simp: scan_descriptor_def Let_def in_database_def MiIsMemoryTypeInDatabase_def)
    then show ?thesis
      using Cons [of "Suc i" "scan_descriptor d i s"] False by simp
  qed
qed

lemma scan_loop_highest:
  "MmHighestPhysicalPage (scan_loop descs i s) =
     Max (insert (MmHighestPhysicalPage s) (last_page ` set (filter in_database descs)))"
proof (induction descs arbitrary: i s)
  case Nil
  then show ?case by simp
next
  case (Cons d rest)
  show ?case
  proof (cases "in_database d")
    case True
    then have "MmHighestPhysicalPage (scan_descriptor d i s) =
        max (MmHighestPhysicalPage s) (last_page d)"
      by (auto simp: scan_descriptor_def Let_def in_database_def MiIsMemoryTypeInDatabase_def
          last_page_def)
    then show ?thesis
      using Cons [of "Suc i" "scan_descriptor d i s"] True
      by (simp add: Max_insert_max del: Max_insert)
  next
    case False
    then have "MmHighestPhysicalPage (scan_descriptor d i s) = MmHighestPhysicalPage s"
      by (auto simp: scan_descriptor_def Let_def in_database_def MiIsMemoryTypeInDatabase_def)
    then show ?thesis
      using Cons [of "Suc i" "scan_descriptor d i s"] False by simp
  qed
qed

text \<open>The bootstrap descriptor selected by the loop is a free-classified descriptor of the list.\<close>

lemma scan_loop_selected:
  "MxFreeDescriptor (scan_loop descs i s) = Some k \<Longrightarrow>
   MxFreeDescriptor s = Some k
   \<or> (i \<le> k \<and> k < i + length descs \<and> MiIsMemoryTypeFree (MemoryType (descs ! (k - i)))
       \<and> MiIsMemoryTypeInDatabase (MemoryType (descs ! (k - i))))"
proof (induction descs arbitrary: i s)
  case Nil
  then show ?case by simp
next
  case (Cons d rest)
  from Cons.IH [of "Suc i" "scan_descriptor d i s"] Cons.prems
  consider (old) "MxFreeDescriptor (scan_descriptor d i s) = Some k"
    | (new) "Suc i \<le> k" "k < Suc i + length rest"
        "MiIsMemoryTypeFree (MemoryType (rest ! (k - Suc i)))"
        "MiIsMemoryTypeInDatabase (MemoryType (rest ! (k - Suc i)))"
    by auto
  then show ?case
  proof cases
    case old
    then show ?thesis
      by (auto simp: scan_descriptor_def Let_def split: if_splits)
  next
    case new
    then have "(d # rest) ! (k - i) = rest ! (k - Suc i)"
      by (simp add: nth_Cons')
    then show ?thesis using new by simp
  qed
qed

lemma mono_unat: "mono (unat :: 32 word \<Rightarrow> nat)"
  by (simp add: mono_def word_le_nat_alt)

text \<open>
  C2. When \<open>MiScanMemoryDescriptors\<close> returns, \<open>MmNumberOfPhysicalPages\<close> is the sum of
  the page counts of the in-database descriptors whose kind is not \<open>LoaderBad\<close>, while
  \<open>MmLowestPhysicalPage\<close> and \<open>MmHighestPhysicalPage\<close> are the least base page and the
  greatest last page (base + count - 1) of all in-database descriptors, the bad ones
  included. The sums are the machine's (modulo \<open>2 ^ 32\<close>); the last three conjuncts
  read the results as natural numbers.
\<close>

theorem MiScanMemoryDescriptors_totals:
  assumes ret: "MiScanMemoryDescriptors descs boot_globals = Inr s"
  shows
    "MmNumberOfPhysicalPages s =
       sum_list (map PageCount
         (filter (\<lambda>d. in_database d \<and> MemoryType d \<noteq> LoaderBad) descs))
     \<and> filter in_database descs \<noteq> []
     \<and> MmLowestPhysicalPage s = Min (BasePage ` set (filter in_database descs))
     \<and> MmHighestPhysicalPage s = Max (last_page ` set (filter in_database descs))
     \<and> (sum_list (map (\<lambda>d. unat (PageCount d))
           (filter (\<lambda>d. in_database d \<and> MemoryType d \<noteq> LoaderBad) descs)) < 2 ^ 32 \<longrightarrow>
         unat (MmNumberOfPhysicalPages s) =
           sum_list (map (\<lambda>d. unat (PageCount d))
             (filter (\<lambda>d. in_database d \<and> MemoryType d \<noteq> LoaderBad) descs)))
     \<and> unat (MmLowestPhysicalPage s) =
           Min ((\<lambda>d. unat (BasePage d)) ` set (filter in_database descs))
     \<and> ((\<forall>d \<in> set (filter in_database descs).
            0 < unat (PageCount d) \<and> unat (BasePage d) + unat (PageCount d) \<le> 2 ^ 32) \<longrightarrow>
         unat (MmHighestPhysicalPage s) =
           Max ((\<lambda>d. unat (BasePage d) + unat (PageCount d) - 1)
                  ` set (filter in_database descs)))"
proof -
  let ?s = "scan_loop descs 0 boot_globals"
  let ?db = "filter in_database descs"
  let ?good = "filter (\<lambda>d. in_database d \<and> MemoryType d \<noteq> LoaderBad) descs"
  from ret obtain k where k: "MxFreeDescriptor ?s = Some k"
    and s: "s = ?s\<lparr>MxOldFreeDescriptor := descs ! k, MiEarlyAllocBase := BasePage (descs ! k)\<rparr>"
    by (auto simp: MiScanMemoryDescriptors_def Let_def split: option.splits)
  have "MxFreeDescriptor boot_globals = None" by (simp add: boot_globals_def)
  with scan_loop_selected [OF k] have kin: "k < length descs"
    and kdb: "MiIsMemoryTypeInDatabase (MemoryType (descs ! k))"
    by auto
  have mem: "descs ! k \<in> set ?db"
    using kin kdb by (simp add: in_database_def MiIsMemoryTypeInDatabase_def)
  then have ne: "?db \<noteq> []" by (metis empty_iff empty_set)
  have neB: "BasePage ` set ?db \<noteq> {}" and neL: "last_page ` set ?db \<noteq> {}"
    using mem by (metis empty_iff image_is_empty)+
  have total: "MmNumberOfPhysicalPages s = sum_list (map PageCount ?good)"
    using scan_loop_total [of descs 0 boot_globals] s by (simp add: boot_globals_def)
  have "MmLowestPhysicalPage s = Min (insert (- 1) (BasePage ` set ?db))"
    using scan_loop_lowest [of descs 0 boot_globals] s by (simp add: boot_globals_def)
  also have "\<dots> = min (- 1) (Min (BasePage ` set ?db))"
    using neB by (intro Min_insert) auto
  also have "\<dots> = Min (BasePage ` set ?db)"
    by (rule min_absorb2) (rule word_n1_ge)
  finally have low: "MmLowestPhysicalPage s = Min (BasePage ` set ?db)" .
  have "MmHighestPhysicalPage s = Max (insert 0 (last_page ` set ?db))"
    using scan_loop_highest [of descs 0 boot_globals] s by (simp add: boot_globals_def)
  also have "\<dots> = max 0 (Max (last_page ` set ?db))"
    using neL by (intro Max_insert) auto
  also have "\<dots> = Max (last_page ` set ?db)"
    by (rule max_absorb2) (rule word_zero_le)
  finally have high: "MmHighestPhysicalPage s = Max (last_page ` set ?db)" .
  have ntotal: "sum_list (map (\<lambda>d. unat (PageCount d)) ?good) < 2 ^ 32 \<longrightarrow>
      unat (MmNumberOfPhysicalPages s) = sum_list (map (\<lambda>d. unat (PageCount d)) ?good)"
    using unat_sum_list_eq [of "map PageCount ?good"] total by (simp add: comp_def)
  have nlow: "unat (MmLowestPhysicalPage s) = Min ((\<lambda>d. unat (BasePage d)) ` set ?db)"
    using mono_Min_commute [OF mono_unat, of "BasePage ` set ?db"] neB low
    by (simp add: image_image)
  have nhigh: "unat (MmHighestPhysicalPage s) =
           Max ((\<lambda>d. unat (BasePage d) + unat (PageCount d) - 1) ` set ?db)"
    if wf: "\<forall>d \<in> set ?db. 0 < unat (PageCount d) \<and> unat (BasePage d) + unat (PageCount d) \<le> 2 ^ 32"
  proof -
    have eq: "unat (last_page d) = unat (BasePage d) + unat (PageCount d) - 1"
      if "d \<in> set ?db" for d
    proof -
      from wf that have p: "0 < unat (PageCount d)"
        and q: "unat (BasePage d) + unat (PageCount d) \<le> 2 ^ 32" by auto
      have "PageCount d \<noteq> 0" using p by auto
      then have "unat (PageCount d - 1) = unat (PageCount d) - 1"
        by (simp add: unat_minus_one)
      moreover have "last_page d = BasePage d + (PageCount d - 1)"
        by (simp add: last_page_def)
      ultimately have "unat (last_page d) =
          (unat (BasePage d) + (unat (PageCount d) - 1)) mod 2 ^ 32"
        by (simp add: unat_word_ariths)
      then show ?thesis using p q by simp
    qed
    have "unat (Max (last_page ` set ?db)) = Max (unat ` last_page ` set ?db)"
      using mono_Max_commute [OF mono_unat, of "last_page ` set ?db"] neL by simp
    also have "unat ` last_page ` set ?db =
        (\<lambda>d. unat (BasePage d) + unat (PageCount d) - 1) ` set ?db"
      using eq by (auto simp: image_image intro!: image_cong)
    finally show ?thesis using high by simp
  qed
  show ?thesis
    using total ne low high ntotal nlow nhigh by blast
qed

theorem MiScanMemoryDescriptors_totals_witness:
  "MiScanMemoryDescriptors S2_descriptors boot_globals = Inr S2_scanned
   \<and> sum_list (map (\<lambda>d. unat (PageCount d))
         (filter (\<lambda>d. in_database d \<and> MemoryType d \<noteq> LoaderBad) S2_descriptors)) < 2 ^ 32
   \<and> list_all (\<lambda>d. 0 < unat (PageCount d) \<and> unat (BasePage d) + unat (PageCount d) \<le> 2 ^ 32)
         (filter in_database S2_descriptors)
   \<and> unat (MmNumberOfPhysicalPages S2_scanned) = 0x10 + 7
   \<and> unat (MmLowestPhysicalPage S2_scanned) = 0x10
   \<and> unat (MmHighestPhysicalPage S2_scanned) = 0x21 + 7 - 1"
proof -
  have ret: "MiScanMemoryDescriptors S2_descriptors boot_globals = Inr S2_scanned"
    by (simp add: MiScanMemoryDescriptors_def S2_descriptors_def S2_scanned_def
        boot_globals_def scan_descriptor_def MiIsMemoryTypeInDatabase_def
        MiIsMemoryTypeFree_def Let_def)
  have wf: "\<forall>d \<in> set (filter in_database S2_descriptors).
      0 < unat (PageCount d) \<and> unat (BasePage d) + unat (PageCount d) \<le> 2 ^ 32"
    by (simp add: S2_descriptors_def in_database_def)
  show ?thesis
    using MiScanMemoryDescriptors_totals [OF ret] ret wf
    by (simp add: S2_descriptors_def S2_scanned_def in_database_def)
qed

subsection \<open>Memory thresholds\<close>

lemma unat_min_word: "unat (min a b) = min (unat a) (unat (b :: 32 word))"
  by (simp add: min_def word_le_nat_alt)

lemma unat_max_word: "unat (max a b) = max (unat a) (unat (b :: 32 word))"
  by (simp add: max_def word_le_nat_alt)

lemma low_threshold_default:
  assumes pl: "unat plenty < 2 ^ 31"
  shows "unat (min (if pages > 0x40000
                  then (32 * MB) div PAGE_SIZE + drop_bit 7 (pages - 0x40000)
                  else if pages > 0x8000
                  then plenty + drop_bit 5 (pages - 0x8000)
                  else plenty) ((64 * MB) div PAGE_SIZE))
         = low_memory_threshold_spec (unat plenty) (unat (pages :: 32 word))"
proof -
  have c32: "(32 * MB) div PAGE_SIZE = (8192 :: 32 word)"
    and c64: "(64 * MB) div PAGE_SIZE = (16384 :: 32 word)"
    by (simp_all add: MB_def PAGE_SIZE_def)
  consider (big) "pages > 0x40000" | (mid) "\<not> pages > 0x40000" "pages > 0x8000"
    | (small) "\<not> pages > 0x40000" "\<not> pages > 0x8000"
    by blast
  then show ?thesis
  proof cases
    case big
    then have p: "0x40000 < unat pages" by (simp add: word_less_nat_alt)
    have sub: "unat (pages - 0x40000) = unat pages - 0x40000"
      using big by (simp add: unat_sub word_le_nat_alt word_less_nat_alt)
    have "unat (drop_bit 7 (pages - 0x40000)) = drop_bit 7 (unat (pages - 0x40000))"
      by (rule unat_drop_bit_eq)
    then have d: "unat (drop_bit 7 (pages - 0x40000)) = (unat pages - 0x40000) div 2 ^ 7"
      by (simp only: sub drop_bit_nat_def)
    have "unat pages < 2 ^ 32" using unsigned_less [of pages] by simp
    then have "(unat pages - 0x40000) div 2 ^ 7 < 2 ^ 25" by simp
    then have "unat (8192 + drop_bit 7 (pages - 0x40000)) =
        8192 + (unat pages - 0x40000) div 2 ^ 7"
      using d by (simp add: unat_word_ariths)
    then show ?thesis
      using big p by (simp add: c32 c64 unat_min_word low_memory_threshold_spec_def)
  next
    case mid
    then have p: "\<not> 0x40000 < unat pages" "0x8000 < unat pages"
      by (simp_all add: word_less_nat_alt)
    have sub: "unat (pages - 0x8000) = unat pages - 0x8000"
      using mid by (simp add: unat_sub word_le_nat_alt word_less_nat_alt)
    have "unat (drop_bit 5 (pages - 0x8000)) = drop_bit 5 (unat (pages - 0x8000))"
      by (rule unat_drop_bit_eq)
    then have d: "unat (drop_bit 5 (pages - 0x8000)) = (unat pages - 0x8000) div 2 ^ 5"
      by (simp only: sub drop_bit_nat_def)
    have "(unat pages - 0x8000) div 2 ^ 5 < 2 ^ 13" using p by simp
    then have "unat (plenty + drop_bit 5 (pages - 0x8000)) =
        unat plenty + (unat pages - 0x8000) div 2 ^ 5"
      using d pl by (simp add: unat_word_ariths)
    then show ?thesis
      using mid p by (simp add: c32 c64 unat_min_word low_memory_threshold_spec_def)
  next
    case small
    then have p: "\<not> 0x40000 < unat pages" "\<not> 0x8000 < unat pages"
      by (simp_all add: word_less_nat_alt)
    show ?thesis
      using small p by (simp add: c32 c64 unat_min_word low_memory_threshold_spec_def)
  qed
qed

lemma low_memory_threshold_spec_le: "low_memory_threshold_spec plenty pages \<le> 16384"
  by (simp add: low_memory_threshold_spec_def)

lemma low_memory_threshold_spec_pos:
  "0 < plenty \<Longrightarrow> 0 < low_memory_threshold_spec plenty pages"
  by (simp add: low_memory_threshold_spec_def)


text \<open>
  C5. With no registry override (both globals zero on entry) the low threshold is the
  formula of the specification and the high threshold is three times the low one; for
  524288 pages they are 10240 and 30720. \<open>plenty_free_pages\<close> is taken below \<open>2 ^ 31\<close>,
  so that the sum of the middle case does not wrap, and nonzero on a checked build,
  where the function asserts \<open>high > low\<close>.
\<close>

theorem MiInitializeMemoryEvents_default_thresholds:
  assumes lo0: "MmLowMemoryThreshold s = 0"
    and hi0: "MmHighMemoryThreshold s = 0"
    and pl: "unat plenty < 2 ^ 31"
    and chk: "dbg \<longrightarrow> plenty \<noteq> 0"
  shows
    "MiInitializeMemoryEvents_thresholds dbg plenty pages s =
       Inr \<lparr> MmLowMemoryThreshold = of_nat (low_memory_threshold_spec (unat plenty) (unat pages)),
             MmHighMemoryThreshold =
               of_nat (3 * low_memory_threshold_spec (unat plenty) (unat pages)) \<rparr>
     \<and> low_memory_threshold_spec (unat plenty) (unat pages) \<le> (64 * 1024 * 1024) div 4096
     \<and> (pages = 524288 \<longrightarrow>
          MiInitializeMemoryEvents_thresholds dbg plenty pages s =
            Inr \<lparr> MmLowMemoryThreshold = 10240, MmHighMemoryThreshold = 30720 \<rparr>)"
proof -
  let ?spec = "low_memory_threshold_spec (unat plenty) (unat pages)"
  define L where "L = min (if pages > 0x40000
                  then (32 * MB) div PAGE_SIZE + drop_bit 7 (pages - 0x40000)
                  else if pages > 0x8000
                  then plenty + drop_bit 5 (pages - 0x8000)
                  else plenty) ((64 * MB) div PAGE_SIZE)"
  have uL: "unat L = ?spec"
    unfolding L_def by (rule low_threshold_default [OF pl])
  have le: "?spec \<le> 16384" by (rule low_memory_threshold_spec_le)
  have L: "L = of_nat ?spec" using uL by (metis of_nat_unat ucast_id)
  have u3: "unat (3 * L) = 3 * unat L"
    using uL le by (simp add: unat_word_ariths)
  then have L3: "3 * L = of_nat (3 * ?spec)" using uL by (metis of_nat_unat ucast_id)
  have "L \<le> 3 * L" using u3 by (simp add: word_le_nat_alt)
  then have mx: "max (3 * L) L = 3 * L" by (rule max_absorb1)
  have gt: "3 * L > L" if "plenty \<noteq> 0"
  proof -
    have "0 < unat plenty" using that by (simp add: unat_gt_0)
    then have "0 < unat L" using low_memory_threshold_spec_pos uL by simp
    then show ?thesis using u3 by (simp add: word_less_nat_alt)
  qed
  have run: "MiInitializeMemoryEvents_thresholds dbg plenty pages s =
      Inr \<lparr> MmLowMemoryThreshold = L, MmHighMemoryThreshold = 3 * L \<rparr>"
    using lo0 hi0 chk gt mx
    by (auto simp: MiInitializeMemoryEvents_thresholds_def Let_def L_def [symmetric])
  have scen: "MiInitializeMemoryEvents_thresholds dbg plenty pages s =
            Inr \<lparr> MmLowMemoryThreshold = 10240, MmHighMemoryThreshold = 30720 \<rparr>"
    if "pages = 524288"
    using that lo0 hi0
    by (simp add: MiInitializeMemoryEvents_thresholds_def MB_def PAGE_SIZE_def Let_def)
  show ?thesis
    using run L L3 le scen by simp
qed

theorem MiInitializeMemoryEvents_default_thresholds_witness:
  "MmLowMemoryThreshold \<lparr>MmLowMemoryThreshold = 0, MmHighMemoryThreshold = 0\<rparr> = 0
   \<and> MmHighMemoryThreshold \<lparr>MmLowMemoryThreshold = 0, MmHighMemoryThreshold = 0\<rparr> = 0
   \<and> unat (400 :: 32 word) < 2 ^ 31
   \<and> (400 :: 32 word) \<noteq> 0
   \<and> low_memory_threshold_spec 400 524288 = 10240
   \<and> MiInitializeMemoryEvents_thresholds True 400 524288
         \<lparr>MmLowMemoryThreshold = 0, MmHighMemoryThreshold = 0\<rparr>
       = Inr \<lparr>MmLowMemoryThreshold = 10240, MmHighMemoryThreshold = 30720\<rparr>"
  using MiInitializeMemoryEvents_default_thresholds
    [of "\<lparr>MmLowMemoryThreshold = 0, MmHighMemoryThreshold = 0\<rparr>" 400 True 524288]
  by (simp add: low_memory_threshold_spec_def)

subsection \<open>Page colors\<close>

lemma nat_pow2_of_and_pred:
  "0 < (n::nat) \<Longrightarrow> n AND (n - 1) = 0 \<Longrightarrow> \<exists>k. n = 2 ^ k"
proof (induction n rule: less_induct)
  case (less n)
  show ?case
  proof (cases "even n")
    case True
    then obtain m where m: "n = 2 * m" by (auto elim: evenE)
    with less.prems have mpos: "0 < m" by simp
    have "n - 1 = 2 * (m - 1) + 1" using m mpos by simp
    then have "n AND (n - 1) = (2 * m) AND (2 * (m - 1) + 1)" using m by simp
    also have "\<dots> = 2 * (m AND (m - 1))" by (subst and_rec) simp
    finally have "m AND (m - 1) = 0" using less.prems by simp
    then obtain k where "m = 2 ^ k" using less.IH [of m] m mpos by auto
    then have "n = 2 ^ Suc k" using m by simp
    then show ?thesis by blast
  next
    case False
    then obtain m where m: "n = 2 * m + 1" by (auto elim: oddE)
    then have "n AND (n - 1) = (2 * m + 1) AND (2 * m)" by simp
    also have "\<dots> = 2 * m" by (subst and_rec) simp
    finally have "m = 0" using less.prems by simp
    then have "n = 2 ^ 0" using m by simp
    then show ?thesis by blast
  qed
qed

lemma word_pow2_of_and_pred:
  assumes nz: "(w :: 32 word) \<noteq> 0" and a: "w AND (w - 1) = 0"
  shows "\<exists>k < 32. w = 2 ^ k"
proof -
  have pos: "0 < unat w" using nz by (simp add: unat_gt_0)
  have "unat (w AND (w - 1)) = unat w AND unat (w - 1)"
    by (rule unsigned_and_eq)
  also have "unat (w - 1) = unat w - 1" using nz by (rule unat_minus_one)
  finally have "unat w AND (unat w - 1) = 0" using a by simp
  then obtain k where k: "unat w = 2 ^ k"
    using nat_pow2_of_and_pred [OF pos] by blast
  have "unat w < 2 ^ 32" using unsigned_less [of w] by simp
  then have "(2::nat) ^ k < 2 ^ 32" using k by simp
  then have k32: "k < 32" by (rule power_less_imp_less_exp [rotated]) simp
  have "w = of_nat (unat w)" by simp
  also have "\<dots> = 2 ^ k" using k by simp
  finally show ?thesis using k32 by blast
qed

lemma word_pow2_and_pred:
  assumes "k < 32"
  shows "(2 ^ k :: 32 word) AND (2 ^ k - 1) = 0"
proof -
  have "(2 ^ k :: 32 word) AND (2 ^ k - 1) = take_bit k (2 ^ k)"
    by (simp add: take_bit_eq_mask mask_eq_exp_minus_1)
  also have "\<dots> = 0" by (simp add: take_bit_eq_mod)
  finally show ?thesis .
qed

lemma MiComputeColorInformation_raw:
  "MiComputeColorInformation lim colors0 cache_size assoc =
     (let raw = raw_colors colors0 cache_size assoc;
          c3 = (if raw = 0 then MI_SECONDARY_COLORS lim
                else
                  let c4 = (if raw > MI_MAX_SECONDARY_COLORS lim
                            then MI_MAX_SECONDARY_COLORS lim else raw);
                      c5 = (if c4 < MI_MIN_SECONDARY_COLORS lim
                            then MI_SECONDARY_COLORS lim else c4)
                  in if c5 AND (c5 - 1) \<noteq> 0 then MI_SECONDARY_COLORS lim else c5)
      in \<lparr> MmSecondaryColors = c3, MmSecondaryColorMask = c3 - 1 \<rparr>)"
  by (simp add: MiComputeColorInformation_def raw_colors_def Let_def)

text \<open>
  C8. Whatever the cache size, the associativity and the registry value, the number of
  colors is a power of two between the minimum and the maximum and the mask is the number
  of colors minus one, provided the default \<open>MI_SECONDARY_COLORS\<close> is itself a power of two
  between the two limits. A raw value of zero gives the default; a raw value above the
  maximum is clamped to the maximum (and replaced by the default when the maximum is not a
  power of two); a raw value below the minimum, or in range and not a power of two, gives
  the default; a power of two in range is kept. A 512 KiB cache of associativity 4 gives
  32 colors and the mask 31 when 32 lies between the limits.
\<close>

theorem MiComputeColorInformation_colors:
  assumes dpow: "k0 < 32" "MI_SECONDARY_COLORS lim = 2 ^ k0"
    and dmin: "MI_MIN_SECONDARY_COLORS lim \<le> MI_SECONDARY_COLORS lim"
    and dmax: "MI_SECONDARY_COLORS lim \<le> MI_MAX_SECONDARY_COLORS lim"
  shows
    "(\<exists>k < 32. MmSecondaryColors (MiComputeColorInformation lim colors0 cache_size assoc) = 2 ^ k)
     \<and> MI_MIN_SECONDARY_COLORS lim
           \<le> MmSecondaryColors (MiComputeColorInformation lim colors0 cache_size assoc)
     \<and> MmSecondaryColors (MiComputeColorInformation lim colors0 cache_size assoc)
           \<le> MI_MAX_SECONDARY_COLORS lim
     \<and> MmSecondaryColorMask (MiComputeColorInformation lim colors0 cache_size assoc)
           = MmSecondaryColors (MiComputeColorInformation lim colors0 cache_size assoc) - 1
     \<and> (raw_colors colors0 cache_size assoc = 0 \<longrightarrow>
           MmSecondaryColors (MiComputeColorInformation lim colors0 cache_size assoc)
             = MI_SECONDARY_COLORS lim)
     \<and> (raw_colors colors0 cache_size assoc > MI_MAX_SECONDARY_COLORS lim \<longrightarrow>
           MmSecondaryColors (MiComputeColorInformation lim colors0 cache_size assoc)
             = (if MI_MAX_SECONDARY_COLORS lim AND (MI_MAX_SECONDARY_COLORS lim - 1) = 0
                then MI_MAX_SECONDARY_COLORS lim else MI_SECONDARY_COLORS lim))
     \<and> (raw_colors colors0 cache_size assoc < MI_MIN_SECONDARY_COLORS lim \<longrightarrow>
           MmSecondaryColors (MiComputeColorInformation lim colors0 cache_size assoc)
             = MI_SECONDARY_COLORS lim)
     \<and> (raw_colors colors0 cache_size assoc \<le> MI_MAX_SECONDARY_COLORS lim
          \<and> (\<forall>k < 32. raw_colors colors0 cache_size assoc \<noteq> 2 ^ k) \<longrightarrow>
           MmSecondaryColors (MiComputeColorInformation lim colors0 cache_size assoc)
             = MI_SECONDARY_COLORS lim)
     \<and> (MI_MIN_SECONDARY_COLORS lim \<le> raw_colors colors0 cache_size assoc
          \<and> raw_colors colors0 cache_size assoc \<le> MI_MAX_SECONDARY_COLORS lim
          \<and> k1 < 32 \<and> raw_colors colors0 cache_size assoc = 2 ^ k1 \<longrightarrow>
           MmSecondaryColors (MiComputeColorInformation lim colors0 cache_size assoc)
             = raw_colors colors0 cache_size assoc)
     \<and> (MI_MIN_SECONDARY_COLORS lim \<le> 32 \<and> 32 \<le> MI_MAX_SECONDARY_COLORS lim \<longrightarrow>
           MiComputeColorInformation lim 0 (512 * 1024) 4
             = \<lparr> MmSecondaryColors = 32, MmSecondaryColorMask = 31 \<rparr>)"
proof -
  let ?D = "MI_SECONDARY_COLORS lim"
  let ?lo = "MI_MIN_SECONDARY_COLORS lim"
  let ?hi = "MI_MAX_SECONDARY_COLORS lim"
  let ?raw = "raw_colors colors0 cache_size assoc"
  let ?c = "MmSecondaryColors (MiComputeColorInformation lim colors0 cache_size assoc)"
  have Dnz: "?D \<noteq> 0"
  proof
    assume "?D = 0"
    then have "(2 ^ k0 :: 32 word) = 0" using dpow by simp
    then show False using dpow(1) by (simp add: exp_eq_zero_iff)
  qed
  have Dand: "?D AND (?D - 1) = 0" using dpow word_pow2_and_pred by simp
  have lohi: "?lo \<le> ?hi" using dmin dmax by simp
  have cases: "?c = ?D \<or> (?c \<noteq> 0 \<and> ?c AND (?c - 1) = 0 \<and> ?lo \<le> ?c \<and> ?c \<le> ?hi)"
    using lohi dmax Dnz by (auto simp: MiComputeColorInformation_raw Let_def)
  have p1: "\<exists>k < 32. ?c = 2 ^ k"
    using cases dpow word_pow2_of_and_pred by metis
  have p2: "?lo \<le> ?c" using cases dmin by auto
  have p3: "?c \<le> ?hi" using cases dmax by auto
  have p4: "MmSecondaryColorMask (MiComputeColorInformation lim colors0 cache_size assoc) = ?c - 1"
    by (simp add: MiComputeColorInformation_raw Let_def)
  have p5: "?raw = 0 \<longrightarrow> ?c = ?D"
    by (simp add: MiComputeColorInformation_raw Let_def)
  have p6: "?raw > ?hi \<longrightarrow>
      ?c = (if ?hi AND (?hi - 1) = 0 then ?hi else ?D)"
    using lohi by (auto simp: MiComputeColorInformation_raw Let_def)
  have p7: "?raw < ?lo \<longrightarrow> ?c = ?D"
    using lohi Dand by (auto simp: MiComputeColorInformation_raw Let_def)
  have p8: "?raw \<le> ?hi \<and> (\<forall>k < 32. ?raw \<noteq> 2 ^ k) \<longrightarrow> ?c = ?D"
  proof
    assume a: "?raw \<le> ?hi \<and> (\<forall>k < 32. ?raw \<noteq> 2 ^ k)"
    then have "?raw = 0 \<or> ?raw AND (?raw - 1) \<noteq> 0"
      using word_pow2_of_and_pred by blast
    then show "?c = ?D"
      using a Dand by (auto simp: MiComputeColorInformation_raw Let_def)
  qed
  have p9: "?lo \<le> ?raw \<and> ?raw \<le> ?hi \<and> k1 < 32 \<and> ?raw = 2 ^ k1 \<longrightarrow> ?c = ?raw"
  proof
    assume a: "?lo \<le> ?raw \<and> ?raw \<le> ?hi \<and> k1 < 32 \<and> ?raw = 2 ^ k1"
    then have z: "?raw AND (?raw - 1) = 0" using word_pow2_and_pred by simp
    have nz: "?raw \<noteq> 0" using a by (simp add: exp_eq_zero_iff)
    show "?c = ?raw"
      using a z nz by (auto simp: MiComputeColorInformation_raw Let_def)
  qed
  have p10: "?lo \<le> 32 \<and> 32 \<le> ?hi \<longrightarrow>
           MiComputeColorInformation lim 0 (512 * 1024) 4
             = \<lparr> MmSecondaryColors = 32, MmSecondaryColorMask = 31 \<rparr>"
    by (auto simp: MiComputeColorInformation_def PAGE_SHIFT_def Let_def)
  show ?thesis
    using p1 p2 p3 p4 p5 p6 p7 p8 p9 p10 by blast
qed

theorem MiComputeColorInformation_colors_witness:
  "(6 :: nat) < 32 \<and> MI_SECONDARY_COLORS example_color_limits = 2 ^ 6
   \<and> MI_MIN_SECONDARY_COLORS example_color_limits \<le> MI_SECONDARY_COLORS example_color_limits
   \<and> MI_SECONDARY_COLORS example_color_limits \<le> MI_MAX_SECONDARY_COLORS example_color_limits
   \<and> MI_MIN_SECONDARY_COLORS example_color_limits \<le> 32
   \<and> 32 \<le> MI_MAX_SECONDARY_COLORS example_color_limits
   \<and> raw_colors 0 (512 * 1024) 4 = 2 ^ 5
   \<and> MiComputeColorInformation example_color_limits 0 (512 * 1024) 4
       = \<lparr> MmSecondaryColors = 32, MmSecondaryColorMask = 31 \<rparr>
   \<and> raw_colors 0 0 0 = 0
   \<and> MiComputeColorInformation example_color_limits 0 0 0
       = \<lparr> MmSecondaryColors = 64, MmSecondaryColorMask = 63 \<rparr>
   \<and> raw_colors 0 (16 * 1024 * 1024) 1 > MI_MAX_SECONDARY_COLORS example_color_limits
   \<and> MiComputeColorInformation example_color_limits 0 (16 * 1024 * 1024) 1
       = \<lparr> MmSecondaryColors = 1024, MmSecondaryColorMask = 1023 \<rparr>
   \<and> raw_colors 0 (16 * 1024) 1 < MI_MIN_SECONDARY_COLORS example_color_limits
   \<and> MiComputeColorInformation example_color_limits 0 (16 * 1024) 1
       = \<lparr> MmSecondaryColors = 64, MmSecondaryColorMask = 63 \<rparr>
   \<and> raw_colors 0 (48 * 1024) 1 = 12
   \<and> MiComputeColorInformation example_color_limits 0 (48 * 1024) 1
       = \<lparr> MmSecondaryColors = 64, MmSecondaryColorMask = 63 \<rparr>"
  using MiComputeColorInformation_colors [of 6 example_color_limits 0 "512 * 1024" 4 5]
    MiComputeColorInformation_colors [of 6 example_color_limits 0 0 0 0]
    MiComputeColorInformation_colors [of 6 example_color_limits 0 "16 * 1024 * 1024" 1 0]
    MiComputeColorInformation_colors [of 6 example_color_limits 0 "16 * 1024" 1 0]
    MiComputeColorInformation_colors [of 6 example_color_limits 0 "48 * 1024" 1 0]
  by (simp add: example_color_limits_def raw_colors_def MiComputeColorInformation_def
      PAGE_SHIFT_def Let_def)

subsection \<open>The physical memory block\<close>

lemma S3_block:
  "MmInitializeMemoryLimits dbg True 4 S3_descriptors include_all =
     Inr (Some \<lparr> NumberOfRuns = 1, NumberOfPages = 350,
                 Run = [\<lparr>Run_BasePage = 0, Run_PageCount = 350\<rparr>] \<rparr>)"
  by (simp add: MmInitializeMemoryLimits_def S3_descriptors_def include_all_def
      limits_descriptor_def Let_def)

lemma unordered_block:
  "MmInitializeMemoryLimits dbg True 2 unordered_descriptors include_all =
     Inr (Some \<lparr> NumberOfRuns = 2, NumberOfPages = 200,
                 Run = [\<lparr>Run_BasePage = 100, Run_PageCount = 100\<rparr>,
                        \<lparr>Run_BasePage = 0, Run_PageCount = 100\<rparr>] \<rparr>)"
  by (simp add: MmInitializeMemoryLimits_def unordered_descriptors_def include_all_def
      limits_descriptor_def Let_def)

lemma separated_runs_snoc:
  "separated_runs (rs @ [r]) =
     (separated_runs rs
      \<and> (rs = [] \<or> run_end (last rs) < unat (Run_BasePage r)))"
  by (induction rs rule: separated_runs.induct) auto

lemma separated_runs_butlast:
  "separated_runs rs \<Longrightarrow> separated_runs (butlast rs)"
  by (induction rs rule: separated_runs.induct) auto

lemma separated_runs_extend_last:
  assumes "separated_runs rs" "rs \<noteq> []"
  shows "separated_runs (butlast rs @ [(last rs)\<lparr>Run_PageCount := c\<rparr>])"
proof -
  have "rs = butlast rs @ [last rs]" using assms(2) by simp
  then have "separated_runs (butlast rs @ [last rs])" using assms(1) by simp
  then show ?thesis by (simp add: separated_runs_snoc run_end_def)
qed

lemma limits_loop_total:
  "limits_loop dbg cap inc ds (runs, np, c) = Inr (runs', np', c') \<Longrightarrow>
   c' = c + sum_list (map PageCount (filter (\<lambda>d. inc (MemoryType d)) ds))"
proof (induction ds arbitrary: runs np c)
  case Nil
  then show ?case by simp
next
  case (Cons d ds)
  from Cons.prems obtain runs1 np1 c1 where
    step: "limits_descriptor dbg cap inc d (runs, np, c) = Inr (runs1, np1, c1)" and
    rest: "limits_loop dbg cap inc ds (runs1, np1, c1) = Inr (runs', np', c')"
    by (auto split: sum.splits)
  have "c1 = (if inc (MemoryType d) then c + PageCount d else c)"
    using step by (auto simp: limits_descriptor_def Let_def split: if_splits)
  then show ?case using Cons.IH [OF rest] by (simp add: add.assoc)
qed

lemma limits_loop_ascending:
  assumes "list_all proper_descriptor (filter (\<lambda>d. inc (MemoryType d)) ds)"
    and "ascending_descriptors (filter (\<lambda>d. inc (MemoryType d)) ds)"
    and "length runs + length (filter (\<lambda>d. inc (MemoryType d)) ds) \<le> cap"
    and "separated_runs runs"
    and "list_all (\<lambda>r. 0 < unat (Run_PageCount r)) runs"
    and "runs = [] \<longrightarrow> np = - 1"
    and "runs \<noteq> [] \<longrightarrow> unat np = run_end (last runs)"
    and "runs \<noteq> [] \<and> filter (\<lambda>d. inc (MemoryType d)) ds \<noteq> [] \<longrightarrow>
           run_end (last runs) \<le> unat (BasePage (hd (filter (\<lambda>d. inc (MemoryType d)) ds)))"
  shows "\<exists>runs' np'.
           limits_loop dbg cap inc ds (runs, np, c) =
             Inr (runs', np', c + sum_list (map PageCount (filter (\<lambda>d. inc (MemoryType d)) ds)))
           \<and> separated_runs runs'
           \<and> list_all (\<lambda>r. 0 < unat (Run_PageCount r)) runs'
           \<and> length runs' \<le> cap
           \<and> \<Union> (run_pages ` set runs') =
               \<Union> (run_pages ` set runs)
               \<union> \<Union> (descriptor_pages ` set (filter (\<lambda>d. inc (MemoryType d)) ds))"
  using assms
proof (induction ds arbitrary: runs np c)
  case Nil
  then show ?case by simp
next
  case (Cons d ds)
  let ?f = "filter (\<lambda>d. inc (MemoryType d))"
  show ?case
  proof (cases "inc (MemoryType d)")
    case False
    then have step: "limits_descriptor dbg cap inc d (runs, np, c) = Inr (runs, np, c)"
      by (simp add: limits_descriptor_def)
    have f: "?f (d # ds) = ?f ds" using False by simp
    show ?thesis
      using Cons.IH [of runs np c] Cons.prems step unfolding f by simp
  next
    case True
    then have f: "?f (d # ds) = d # ?f ds" by simp
    from Cons.prems(1) have pd: "proper_descriptor d"
      and prest: "list_all proper_descriptor (?f ds)"
      unfolding f by simp_all
    from pd have cpos: "0 < unat (PageCount d)" and dend: "descriptor_end d < 2 ^ 32"
      by (simp_all add: proper_descriptor_def)
    have cnz: "PageCount d \<noteq> 0" using cpos by auto
    from Cons.prems(2) have arest: "ascending_descriptors (?f ds)"
      unfolding f by (cases "?f ds") simp_all
    from Cons.prems(2) have dnext: "?f ds \<noteq> [] \<longrightarrow> descriptor_end d \<le> unat (BasePage (hd (?f ds)))"
      unfolding f by (cases "?f ds") simp_all
    from Cons.prems(3) have caprest: "Suc (length runs) + length (?f ds) \<le> cap"
      unfolding f by simp
    from Cons.prems(8) have lastle: "runs \<noteq> [] \<longrightarrow> run_end (last runs) \<le> unat (BasePage d)"
      unfolding f by simp
    have uend: "unat (BasePage d + PageCount d) = descriptor_end d"
      using dend by (simp add: unat_word_ariths descriptor_end_def)
    show ?thesis
    proof (cases "BasePage d = np")
      case merge: True
      have ne: "runs \<noteq> []"
      proof
        assume "runs = []"
        then have "np = - 1" using Cons.prems(6) by simp
        then have "unat (BasePage d) = 2 ^ 32 - 1" using merge by (simp add: unsigned_minus_1_eq_mask mask_eq_exp_minus_1)
        then show False using cpos dend by (simp add: descriptor_end_def)
      qed
      define r' where "r' = (last runs)\<lparr>Run_PageCount := Run_PageCount (last runs) + PageCount d\<rparr>"
      define runs1 where "runs1 = butlast runs @ [r']"
      have step: "limits_descriptor dbg cap inc d (runs, np, c) =
          Inr (runs1, np + PageCount d, c + PageCount d)"
        using True merge ne cnz by (simp add: limits_descriptor_def Let_def runs1_def r'_def)
      have npl: "unat np = run_end (last runs)" using Cons.prems(7) ne by simp
      have base_eq: "unat (BasePage d) = run_end (last runs)" using npl merge by simp
      have ucount: "unat (Run_PageCount (last runs) + PageCount d) =
          unat (Run_PageCount (last runs)) + unat (PageCount d)"
      proof -
        have "unat (Run_PageCount (last runs)) + unat (PageCount d) \<le> descriptor_end d"
          using base_eq by (simp add: run_end_def descriptor_end_def)
        then show ?thesis using dend by (simp add: unat_word_ariths)
      qed
      have rend: "run_end r' = descriptor_end d"
        using ucount base_eq by (simp add: r'_def run_end_def descriptor_end_def)
      have sep1: "separated_runs runs1"
        unfolding runs1_def r'_def using Cons.prems(4) ne by (rule separated_runs_extend_last)
      have last1: "last runs1 = r'" and ne1: "runs1 \<noteq> []" and len1: "length runs1 = length runs"
        using ne by (simp_all add: runs1_def)
      have pos1: "list_all (\<lambda>r. 0 < unat (Run_PageCount r)) runs1"
      proof -
        have "list_all (\<lambda>r. 0 < unat (Run_PageCount r)) (butlast runs)"
          using Cons.prems(5) by (auto simp: list_all_iff dest: in_set_butlastD)
        moreover have "0 < unat (Run_PageCount r')" using ucount cpos by (simp add: r'_def)
        ultimately show ?thesis by (simp add: runs1_def)
      qed
      have np1: "unat (np + PageCount d) = run_end (last runs1)"
        using uend merge rend last1 by simp
      have pages_r': "run_pages r' = run_pages (last runs) \<union> descriptor_pages d"
        using ucount base_eq
        by (auto simp: r'_def run_pages_def descriptor_pages_def run_end_def)
      have "set (butlast runs @ [last runs]) = set (butlast runs) \<union> {last runs}"
        by simp
      then have "set runs = set (butlast runs) \<union> {last runs}"
        using ne by simp
      then have pages1: "\<Union> (run_pages ` set runs1) = \<Union> (run_pages ` set runs) \<union> descriptor_pages d"
        using pages_r' by (auto simp: runs1_def)
      have "\<exists>runs' np'.
           limits_loop dbg cap inc ds (runs1, np + PageCount d, c + PageCount d) =
             Inr (runs', np', c + PageCount d + sum_list (map PageCount (?f ds)))
           \<and> separated_runs runs'
           \<and> list_all (\<lambda>r. 0 < unat (Run_PageCount r)) runs'
           \<and> length runs' \<le> cap
           \<and> \<Union> (run_pages ` set runs') =
               \<Union> (run_pages ` set runs1) \<union> \<Union> (descriptor_pages ` set (?f ds))"
      proof (rule Cons.IH)
        show "list_all proper_descriptor (?f ds)" by (rule prest)
        show "ascending_descriptors (?f ds)" by (rule arest)
        show "length runs1 + length (?f ds) \<le> cap" using caprest len1 by simp
        show "separated_runs runs1" by (rule sep1)
        show "list_all (\<lambda>r. 0 < unat (Run_PageCount r)) runs1" by (rule pos1)
        show "runs1 = [] \<longrightarrow> np + PageCount d = - 1" using ne1 by simp
        show "runs1 \<noteq> [] \<longrightarrow> unat (np + PageCount d) = run_end (last runs1)"
          using np1 by simp
        show "runs1 \<noteq> [] \<and> ?f ds \<noteq> [] \<longrightarrow>
            run_end (last runs1) \<le> unat (BasePage (hd (?f ds)))"
          using dnext rend last1 by simp
      qed
      then show ?thesis
        using step pages1 unfolding f by (auto simp: add.assoc Un_assoc)
    next
      case fresh: False
      define r' where "r' = \<lparr>Run_BasePage = BasePage d, Run_PageCount = PageCount d\<rparr>"
      define runs1 where "runs1 = runs @ [r']"
      have room: "\<not> cap \<le> length runs" using caprest by simp
      have step: "limits_descriptor dbg cap inc d (runs, np, c) =
          Inr (runs1, BasePage d + PageCount d, c + PageCount d)"
        using True fresh room by (simp add: limits_descriptor_def Let_def runs1_def r'_def)
      have rend: "run_end r' = descriptor_end d"
        by (simp add: r'_def run_end_def descriptor_end_def)
      have gap: "runs = [] \<or> run_end (last runs) < unat (Run_BasePage r')"
      proof (cases "runs = []")
        case True
        then show ?thesis by simp
      next
        case False
        then have "unat np = run_end (last runs)" using Cons.prems(7) by simp
        moreover have "unat np \<noteq> unat (BasePage d)" using fresh by (simp add: word_unat_eq_iff)
        moreover have "run_end (last runs) \<le> unat (BasePage d)" using lastle False by simp
        ultimately show ?thesis by (simp add: r'_def)
      qed
      have sep1: "separated_runs runs1"
        using Cons.prems(4) gap by (simp add: runs1_def separated_runs_snoc)
      have last1: "last runs1 = r'" and ne1: "runs1 \<noteq> []"
        and len1: "length runs1 = Suc (length runs)"
        by (simp_all add: runs1_def)
      have pos1: "list_all (\<lambda>r. 0 < unat (Run_PageCount r)) runs1"
        using Cons.prems(5) cpos by (simp add: runs1_def r'_def)
      have pages1: "\<Union> (run_pages ` set runs1) = \<Union> (run_pages ` set runs) \<union> descriptor_pages d"
        by (auto simp: runs1_def r'_def run_pages_def descriptor_pages_def)
      have "\<exists>runs' np'.
           limits_loop dbg cap inc ds (runs1, BasePage d + PageCount d, c + PageCount d) =
             Inr (runs', np', c + PageCount d + sum_list (map PageCount (?f ds)))
           \<and> separated_runs runs'
           \<and> list_all (\<lambda>r. 0 < unat (Run_PageCount r)) runs'
           \<and> length runs' \<le> cap
           \<and> \<Union> (run_pages ` set runs') =
               \<Union> (run_pages ` set runs1) \<union> \<Union> (descriptor_pages ` set (?f ds))"
      proof (rule Cons.IH)
        show "list_all proper_descriptor (?f ds)" by (rule prest)
        show "ascending_descriptors (?f ds)" by (rule arest)
        show "length runs1 + length (?f ds) \<le> cap" using caprest len1 by simp
        show "separated_runs runs1" by (rule sep1)
        show "list_all (\<lambda>r. 0 < unat (Run_PageCount r)) runs1" by (rule pos1)
        show "runs1 = [] \<longrightarrow> BasePage d + PageCount d = - 1" using ne1 by simp
        show "runs1 \<noteq> [] \<longrightarrow> unat (BasePage d + PageCount d) = run_end (last runs1)"
          using uend rend last1 by simp
        show "runs1 \<noteq> [] \<and> ?f ds \<noteq> [] \<longrightarrow>
            run_end (last runs1) \<le> unat (BasePage (hd (?f ds)))"
          using dnext rend last1 by simp
      qed
      then show ?thesis
        using step pages1 unfolding f by (auto simp: add.assoc Un_assoc)
    qed
  qed
qed

lemma ascending_descriptors_sum:
  "ascending_descriptors ds \<Longrightarrow> ds \<noteq> [] \<Longrightarrow>
   unat (BasePage (hd ds)) + sum_list (map (\<lambda>d. unat (PageCount d)) ds)
     \<le> descriptor_end (last ds)"
proof (induction ds rule: ascending_descriptors.induct)
  case 1
  then show ?case by simp
next
  case (2 d)
  then show ?case by (simp add: descriptor_end_def)
next
  case (3 d d' ds)
  then show ?case by (simp add: descriptor_end_def)
qed

lemma ascending_descriptors_total:
  assumes "ascending_descriptors ds" "list_all proper_descriptor ds"
  shows "unat (sum_list (map PageCount ds)) = sum_list (map (\<lambda>d. unat (PageCount d)) ds)"
proof (cases "ds = []")
  case True
  then show ?thesis by simp
next
  case False
  then have "proper_descriptor (last ds)" using assms(2) by (simp add: list_all_iff)
  then have "descriptor_end (last ds) < 2 ^ 32" by (simp add: proper_descriptor_def)
  then have "sum_list (map (\<lambda>d. unat (PageCount d)) ds) < 2 ^ 32"
    using ascending_descriptors_sum [OF assms(1) False] by simp
  then show ?thesis
    using unat_sum_list_eq [of "map PageCount ds"] by (simp add: comp_def)
qed

lemma limits_loop_length:
  "limits_loop dbg cap inc ds (runs, np, c) = Inr (runs', np', c') \<Longrightarrow>
   length runs \<le> cap \<Longrightarrow> length runs' \<le> cap"
proof (induction ds arbitrary: runs np c)
  case Nil
  then show ?case by simp
next
  case (Cons d ds)
  from Cons.prems(1) obtain runs1 np1 c1 where
    step: "limits_descriptor dbg cap inc d (runs, np, c) = Inr (runs1, np1, c1)" and
    rest: "limits_loop dbg cap inc ds (runs1, np1, c1) = Inr (runs', np', c')"
    by (auto split: sum.splits)
  have "length runs1 \<le> cap"
    using step Cons.prems(2)
    by (auto simp: limits_descriptor_def Let_def split: if_splits)
  then show ?case using Cons.IH [OF rest] by simp
qed

text \<open>
  C7, as the code has it. \<open>MmInitializeMemoryLimits\<close> walks the list once and merges a
  descriptor only into the run that ends where the descriptor begins. For every
  descriptor list and inclusion predicate, a block that the function returns has
  \<open>NumberOfPages\<close> equal to the sum of the page counts of the included descriptors and
  \<open>NumberOfRuns\<close> equal to the number of its runs. When moreover the included descriptors
  come in ascending order of base, do not overlap, are not empty and end below \<open>2 ^ 32\<close>,
  and the pool allocation succeeds with room for one run per included descriptor, the
  function does return a block, and its runs are sorted by base and maximal (a gap of
  at least one page separates consecutive runs), cover exactly the pages of the included
  descriptors and are not empty. The bases 0, 100, 200, 250 with the counts 100, 100, 50,
  100 give the single run (0, 350).
\<close>

theorem MmInitializeMemoryLimits_ascending:
  "(MmInitializeMemoryLimits dbg pool_available number_descriptors descs IncludeType
      = Inr (Some returned) \<longrightarrow>
      NumberOfPages returned =
        sum_list (map PageCount (filter (\<lambda>d. IncludeType (MemoryType d)) descs))
      \<and> unat (NumberOfRuns returned) = length (Run returned))
   \<and> (pool_available
       \<and> length (filter (\<lambda>d. IncludeType (MemoryType d)) descs) \<le> unat number_descriptors
       \<and> list_all proper_descriptor (filter (\<lambda>d. IncludeType (MemoryType d)) descs)
       \<and> ascending_descriptors (filter (\<lambda>d. IncludeType (MemoryType d)) descs) \<longrightarrow>
       (\<exists>block.
          MmInitializeMemoryLimits dbg pool_available number_descriptors descs IncludeType
            = Inr (Some block)
          \<and> separated_runs (Run block)
          \<and> list_all (\<lambda>r. 0 < unat (Run_PageCount r)) (Run block)
          \<and> \<Union> (run_pages ` set (Run block)) =
              \<Union> (descriptor_pages ` set (filter (\<lambda>d. IncludeType (MemoryType d)) descs))
          \<and> unat (NumberOfRuns block) = length (Run block)
          \<and> NumberOfPages block =
              sum_list (map PageCount (filter (\<lambda>d. IncludeType (MemoryType d)) descs))
          \<and> unat (NumberOfPages block) =
              sum_list (map (\<lambda>d. unat (PageCount d))
                (filter (\<lambda>d. IncludeType (MemoryType d)) descs))))
   \<and> MmInitializeMemoryLimits dbg True 4 S3_descriptors include_all =
       Inr (Some \<lparr> NumberOfRuns = 1, NumberOfPages = 350,
                   Run = [\<lparr>Run_BasePage = 0, Run_PageCount = 350\<rparr>] \<rparr>)"
proof (intro conjI impI)
  let ?inc = "filter (\<lambda>d. IncludeType (MemoryType d)) descs"
  let ?cap = "unat number_descriptors"
  assume ret: "MmInitializeMemoryLimits dbg pool_available number_descriptors descs IncludeType
      = Inr (Some returned)"
  then obtain runs np c where
    loop: "limits_loop dbg ?cap IncludeType descs ([], - 1, 0) = Inr (runs, np, c)"
    and r: "returned = \<lparr> NumberOfRuns = of_nat (length runs), NumberOfPages = c, Run = runs \<rparr>"
    by (auto simp: MmInitializeMemoryLimits_def split: if_splits sum.splits)
  have "length runs \<le> ?cap" using limits_loop_length [OF loop] by simp
  then have ulen: "unat (of_nat (length runs) :: 32 word) = length runs"
    by (rule le_unat_uoi)
  show "NumberOfPages returned = sum_list (map PageCount ?inc)"
    using limits_loop_total [OF loop] r by simp
  show "unat (NumberOfRuns returned) = length (Run returned)"
    using ulen r by simp
next
  let ?inc = "filter (\<lambda>d. IncludeType (MemoryType d)) descs"
  let ?cap = "unat number_descriptors"
  assume a: "pool_available
       \<and> length ?inc \<le> ?cap
       \<and> list_all proper_descriptor ?inc
       \<and> ascending_descriptors ?inc"
  then have pool: "pool_available" and room: "length ?inc \<le> ?cap"
    and proper: "list_all proper_descriptor ?inc" and asc: "ascending_descriptors ?inc"
    by simp_all
  from limits_loop_ascending [of IncludeType descs "[]" ?cap "- 1" dbg 0] proper asc room
  obtain runs np where
    loop: "limits_loop dbg ?cap IncludeType descs ([], - 1, 0) =
             Inr (runs, np, sum_list (map PageCount ?inc))"
    and sep: "separated_runs runs"
    and pos: "list_all (\<lambda>r. 0 < unat (Run_PageCount r)) runs"
    and len: "length runs \<le> ?cap"
    and pages: "\<Union> (run_pages ` set runs) = \<Union> (descriptor_pages ` set ?inc)"
    by auto
  have ulen: "unat (of_nat (length runs) :: 32 word) = length runs"
    using len by (rule le_unat_uoi)
  have le: "(of_nat (length runs) :: 32 word) \<le> number_descriptors"
    using len ulen by (simp add: word_le_nat_alt)
  have res: "MmInitializeMemoryLimits dbg pool_available number_descriptors descs IncludeType =
      Inr (Some \<lparr> NumberOfRuns = of_nat (length runs),
                  NumberOfPages = sum_list (map PageCount ?inc), Run = runs \<rparr>)"
    using pool loop le by (simp add: MmInitializeMemoryLimits_def)
  have tot: "unat (sum_list (map PageCount ?inc)) = sum_list (map (\<lambda>d. unat (PageCount d)) ?inc)"
    using asc proper by (rule ascending_descriptors_total)
  show "\<exists>block.
          MmInitializeMemoryLimits dbg pool_available number_descriptors descs IncludeType
            = Inr (Some block)
          \<and> separated_runs (Run block)
          \<and> list_all (\<lambda>r. 0 < unat (Run_PageCount r)) (Run block)
          \<and> \<Union> (run_pages ` set (Run block)) = \<Union> (descriptor_pages ` set ?inc)
          \<and> unat (NumberOfRuns block) = length (Run block)
          \<and> NumberOfPages block = sum_list (map PageCount ?inc)
          \<and> unat (NumberOfPages block) = sum_list (map (\<lambda>d. unat (PageCount d)) ?inc)"
    using res sep pos pages ulen tot by simp
next
  show "MmInitializeMemoryLimits dbg True 4 S3_descriptors include_all =
       Inr (Some \<lparr> NumberOfRuns = 1, NumberOfPages = 350,
                   Run = [\<lparr>Run_BasePage = 0, Run_PageCount = 350\<rparr>] \<rparr>)"
    by (rule S3_block)
qed

theorem MmInitializeMemoryLimits_ascending_witness:
  "length (filter (\<lambda>d. include_all (MemoryType d)) S3_descriptors) \<le> unat (4 :: 32 word)
   \<and> list_all proper_descriptor (filter (\<lambda>d. include_all (MemoryType d)) S3_descriptors)
   \<and> ascending_descriptors (filter (\<lambda>d. include_all (MemoryType d)) S3_descriptors)
   \<and> MmInitializeMemoryLimits True True 4 S3_descriptors include_all =
       Inr (Some \<lparr> NumberOfRuns = 1, NumberOfPages = 350,
                   Run = [\<lparr>Run_BasePage = 0, Run_PageCount = 350\<rparr>] \<rparr>)
   \<and> separated_runs [\<lparr>Run_BasePage = 0, Run_PageCount = 350\<rparr>]
   \<and> MmInitializeMemoryLimits True True 2 unordered_descriptors include_all =
       Inr (Some \<lparr> NumberOfRuns = 2, NumberOfPages = 200,
                   Run = [\<lparr>Run_BasePage = 100, Run_PageCount = 100\<rparr>,
                          \<lparr>Run_BasePage = 0, Run_PageCount = 100\<rparr>] \<rparr>)
   \<and> sum_list (map PageCount
         (filter (\<lambda>d. include_all (MemoryType d)) unordered_descriptors)) = 200"
  using MmInitializeMemoryLimits_ascending
      [of True True 4 S3_descriptors include_all
          "\<lparr> NumberOfRuns = 1, NumberOfPages = 350,
             Run = [\<lparr>Run_BasePage = 0, Run_PageCount = 350\<rparr>] \<rparr>"]
    MmInitializeMemoryLimits_ascending
      [of True True 2 unordered_descriptors include_all
          "\<lparr> NumberOfRuns = 2, NumberOfPages = 200,
             Run = [\<lparr>Run_BasePage = 100, Run_PageCount = 100\<rparr>,
                    \<lparr>Run_BasePage = 0, Run_PageCount = 100\<rparr>] \<rparr>"]
    unordered_block [of True]
  by (simp add: S3_descriptors_def unordered_descriptors_def include_all_def
      proper_descriptor_def descriptor_end_def)

text \<open>
  The claim as stated, for every descriptor list, fails: the two adjacent free runs
  (100, 100) and (0, 100), listed in this order, are neither merged nor sorted.
\<close>

theorem MmInitializeMemoryLimits_unordered_counterexample:
  "MmInitializeMemoryLimits False True 2 unordered_descriptors include_all =
     Inr (Some \<lparr> NumberOfRuns = 2, NumberOfPages = 200,
                 Run = [\<lparr>Run_BasePage = 100, Run_PageCount = 100\<rparr>,
                        \<lparr>Run_BasePage = 0, Run_PageCount = 100\<rparr>] \<rparr>)
   \<and> \<not> sorted (map Run_BasePage
            [\<lparr>Run_BasePage = 100, Run_PageCount = 100\<rparr>,
             \<lparr>Run_BasePage = 0, Run_PageCount = 100\<rparr>])
   \<and> \<not> separated_runs
            [\<lparr>Run_BasePage = 100, Run_PageCount = 100\<rparr>,
             \<lparr>Run_BasePage = 0, Run_PageCount = 100\<rparr>]
   \<and> run_end \<lparr>Run_BasePage = 0, Run_PageCount = 100\<rparr> = unat (100 :: 32 word)"
  using unordered_block [of False] by (simp add: run_end_def)

subsection \<open>Paged pool\<close>

lemma ceil_div_4096: "(n + 4095) div 4096 = n div 4096 + (if n mod 4096 = 0 then 0 else 1)"
  for n :: nat
proof -
  define q r where "q = n div 4096" and "r = n mod 4096"
  have n: "n = q * 4096 + r" and r: "r < 4096" by (simp_all add: q_def r_def)
  have "(q * 4096 + r + 4095) div 4096 = q + (r + 4095) div 4096"
    by (simp add: add.assoc)
  moreover have "(r + 4095) div 4096 = (if r = 0 then 0 else 1)"
  proof (cases "r = 0")
    case True
    then show ?thesis by simp
  next
    case False
    then have "(r + 4095) div 4096 = 1" using r by (intro div_nat_eqI) simp_all
    then show ?thesis using False by simp
  qed
  ultimately show ?thesis
    unfolding n using r by simp
qed

lemma unat_BYTES_TO_PAGES: "unat (BYTES_TO_PAGES n) = (unat n + 4095) div 4096"
proof -
  have d: "unat (drop_bit 12 n) = unat n div 4096"
    by (simp add: unat_drop_bit_eq drop_bit_nat_def)
  have "n AND (4096 - 1) = take_bit 12 n"
    by (simp add: take_bit_eq_mask mask_eq_exp_minus_1)
  then have "unat (n AND (4096 - 1)) = unat n mod 4096"
    by (simp add: unsigned_take_bit_eq take_bit_nat_def)
  then have z: "(n AND (4096 - 1) = 0) = (unat n mod 4096 = 0)"
    by (metis unat_eq_0)
  have "unat n < 2 ^ 32" using unsigned_less [of n] by simp
  then have lt: "unat n div 4096 < 2 ^ 20" by simp
  show ?thesis
  proof (cases "unat n mod 4096 = 0")
    case True
    then have "BYTES_TO_PAGES n = drop_bit 12 n"
      using z by (simp add: BYTES_TO_PAGES_def PAGE_SHIFT_def PAGE_SIZE_def)
    then show ?thesis using d True by (simp add: ceil_div_4096)
  next
    case False
    then have "BYTES_TO_PAGES n = drop_bit 12 n + 1"
      using z by (simp add: BYTES_TO_PAGES_def PAGE_SHIFT_def PAGE_SIZE_def)
    then have "unat (BYTES_TO_PAGES n) = (unat n div 4096 + 1) mod 2 ^ 32"
      using d by (simp add: unat_word_ariths)
    then show ?thesis using lt False by (simp add: ceil_div_4096)
  qed
qed

lemma paged_pool_page_tables_bounds:
  "8 \<le> unat (paged_pool_page_tables env) \<and> unat (paged_pool_page_tables env) \<le> 1024
   \<and> (unat (MmNonPagedSystemStart env - MmPagedPoolStart env) \<le> 0xFFC00000 \<longrightarrow>
        unat (paged_pool_page_tables env) \<le> 1023)"
proof -
  define gap where "gap = MmNonPagedSystemStart env - MmPagedPoolStart env"
  define bytes1 where "bytes1 = (if 2 * MmMaximumNonPagedPoolInBytes env > gap then gap
                                 else 2 * MmMaximumNonPagedPoolInBytes env)"
  define Size1 where "Size1 = (if bytes1 < MI_MIN_INIT_PAGED_POOLSIZE
                               then MI_MIN_INIT_PAGED_POOLSIZE else bytes1)"
  define Size2 where "Size2 = BYTES_TO_PAGES Size1"
  have tables: "paged_pool_page_tables env = (Size2 + 1023) div 1024"
    by (simp add: paged_pool_page_tables_def Let_def Size2_def Size1_def bytes1_def gap_def)
  have minv: "unat MI_MIN_INIT_PAGED_POOLSIZE = 33554432"
    by (simp add: MI_MIN_INIT_PAGED_POOLSIZE_def MB_def)
  have b1: "unat bytes1 \<le> unat gap"
    by (simp add: bytes1_def word_less_nat_alt)
  have s1lo: "33554432 \<le> unat Size1"
    using minv by (simp add: Size1_def word_less_nat_alt)
  have s1hi: "unat Size1 \<le> max (unat gap) 33554432"
    using minv b1 by (simp add: Size1_def word_less_nat_alt)
  have s1lt: "unat Size1 < 2 ^ 32" using unsigned_less [of Size1] by simp
  have s2: "unat Size2 = (unat Size1 + 4095) div 4096"
    by (simp add: Size2_def unat_BYTES_TO_PAGES)
  have s2lo: "8192 \<le> unat Size2" using s1lo unfolding s2 by simp
  have s2hi: "unat Size2 \<le> 1048576" using s1lt unfolding s2 by simp
  have "unat (Size2 + 1023) = (unat Size2 + 1023) mod 2 ^ 32"
    by (simp add: unat_word_ariths)
  then have s2p: "unat (Size2 + 1023) = unat Size2 + 1023" using s2hi by simp
  have s3: "unat (paged_pool_page_tables env) = (unat Size2 + 1023) div 1024"
    using s2p by (simp add: tables unat_div)
  have lo: "8 \<le> unat (paged_pool_page_tables env)" using s2lo unfolding s3 by simp
  have hi: "unat (paged_pool_page_tables env) \<le> 1024" using s2hi unfolding s3 by simp
  have hi': "unat (paged_pool_page_tables env) \<le> 1023" if "unat gap \<le> 0xFFC00000"
  proof -
    have "unat Size1 \<le> 0xFFC00000" using s1hi that by simp
    then have "unat Size2 \<le> 1047552" unfolding s2 by simp
    then show ?thesis unfolding s3 by simp
  qed
  show ?thesis using lo hi hi' by (simp add: gap_def)
qed

lemma page_tables_pages:
  assumes "unat (k :: 32 word) \<le> 1024"
  shows "unat (k * 1024) = unat k * 1024"
  using assms by (simp add: unat_word_ariths)

lemma page_tables_bytes:
  assumes "unat (k :: 32 word) \<le> 1023"
  shows "drop_bit PAGE_SHIFT (k * PAGE_SIZE * 1024) = k * 1024"
proof -
  have "unat (k * 4096 * 1024) = (unat k * 4194304) mod 2 ^ 32"
    by (simp add: unat_word_ariths mult.assoc)
  then have b: "unat (k * 4096 * 1024) = unat k * 4194304" using assms by simp
  have "unat (drop_bit 12 (k * 4096 * 1024)) = unat (k * 4096 * 1024) div 4096"
    by (simp add: unat_drop_bit_eq drop_bit_nat_def)
  then have "unat (drop_bit 12 (k * 4096 * 1024)) = unat k * 1024" using b by simp
  then have "unat (drop_bit 12 (k * 4096 * 1024)) = unat (k * 1024)"
    using assms page_tables_pages [of k] by simp
  then show ?thesis by (simp add: PAGE_SHIFT_def PAGE_SIZE_def word_unat_eq_iff)
qed

lemma page_tables_thresholds:
  assumes lo: "8 \<le> unat (k :: 32 word)" and hi: "unat k \<le> 1024"
  shows "min (drop_bit PAGE_SHIFT (30 * MB))
             ((sizeof_RTL_BITMAP + ((k * 1024 + 31) div 32) * sizeof_ULONG) div 5)
         < min (drop_bit PAGE_SHIFT (60 * MB))
             (((sizeof_RTL_BITMAP + ((k * 1024 + 31) div 32) * sizeof_ULONG) * 2) div 5)"
proof -
  define K where "K = unat k"
  define Size5 where "Size5 = sizeof_RTL_BITMAP + ((k * 1024 + 31) div 32) * sizeof_ULONG"
  have c30: "drop_bit PAGE_SHIFT (30 * MB) = (7680 :: 32 word)"
    and c60: "drop_bit PAGE_SHIFT (60 * MB) = (15360 :: 32 word)"
    by (simp_all add: PAGE_SHIFT_def MB_def)
  have s4: "unat (k * 1024) = K * 1024" using hi by (simp add: K_def page_tables_pages)
  have "unat (k * 1024 + 31) = (K * 1024 + 31) mod 2 ^ 32"
    using s4 by (simp add: unat_word_ariths)
  then have s4p: "unat (k * 1024 + 31) = K * 1024 + 31" using hi by (simp add: K_def)
  have d: "unat ((k * 1024 + 31) div 32) = K * 32"
    using s4p by (simp add: unat_div)
  have "unat (((k * 1024 + 31) div 32) * 4) = (K * 32 * 4) mod 2 ^ 32"
    using d by (simp add: unat_word_ariths)
  then have m: "unat (((k * 1024 + 31) div 32) * 4) = K * 128" using hi by (simp add: K_def)
  have "unat Size5 = (8 + K * 128) mod 2 ^ 32"
    using m by (simp add: Size5_def sizeof_RTL_BITMAP_def sizeof_ULONG_def unat_word_ariths)
  then have s5: "unat Size5 = 8 + K * 128" using hi by (simp add: K_def)
  have "unat (Size5 * 2) = ((8 + K * 128) * 2) mod 2 ^ 32"
    using s5 by (simp add: unat_word_ariths)
  then have s52: "unat (Size5 * 2) = 16 + K * 256" using hi by (simp add: K_def)
  have l: "unat (Size5 div 5) = (8 + K * 128) div 5" using s5 by (simp add: unat_div)
  have h: "unat (Size5 * 2 div 5) = (16 + K * 256) div 5" using s52 by (simp add: unat_div)
  have K8: "8 \<le> K" using lo by (simp add: K_def)
  have "min 7680 ((8 + K * 128) div 5) < min (15360 :: nat) ((16 + K * 256) div 5)"
    using K8 by (simp add: min_def) linarith
  then have "unat (min 7680 (Size5 div 5)) < unat (min 15360 (Size5 * 2 div 5))"
    using l h by (simp add: unat_min_word)
  then show ?thesis
    unfolding c30 c60 Size5_def [symmetric] by (simp add: word_less_nat_alt)
qed

lemma MiBuildPagedPool_Inr:
  assumes "MiBuildPagedPool dbg env = Inr p"
  shows "p = \<lparr> MmSizeOfPagedPoolInBytes = paged_pool_page_tables env * PAGE_SIZE * 1024,
               MmSizeOfPagedPoolInPages =
                 drop_bit PAGE_SHIFT (paged_pool_page_tables env * PAGE_SIZE * 1024),
               MmPagedPoolEnd =
                 MmPagedPoolStart env + paged_pool_page_tables env * PAGE_SIZE * 1024 - 1,
               PagedPoolAllocationMap =
                 RtlClearBits
                   (RtlSetAllBits
                     (RtlInitializeBitMap (allocation_map_memory env)
                        (paged_pool_page_tables env * 1024)))
                   0 1024,
               EndOfPagedPoolBitmap =
                 RtlClearAllBits
                   (RtlInitializeBitMap (end_map_memory env)
                      (paged_pool_page_tables env * 1024)),
               MiLowPagedPoolThreshold =
                 min (drop_bit PAGE_SHIFT (30 * MB))
                   ((sizeof_RTL_BITMAP
                      + ((paged_pool_page_tables env * 1024 + 31) div 32) * sizeof_ULONG) div 5),
               MiHighPagedPoolThreshold =
                 min (drop_bit PAGE_SHIFT (60 * MB))
                   (((sizeof_RTL_BITMAP
                      + ((paged_pool_page_tables env * 1024 + 31) div 32) * sizeof_ULONG) * 2)
                    div 5) \<rparr>
         \<and> (dbg \<longrightarrow> paged_pool_page_tables env * 1024 =
                 drop_bit PAGE_SHIFT (paged_pool_page_tables env * PAGE_SIZE * 1024))"
  using assms by (simp add: MiBuildPagedPool_def Let_def split: if_splits)

text \<open>
  C9. When \<open>MiBuildPagedPool\<close> returns, both bitmaps have as many bits as the paged pool
  has pages (\<open>MmSizeOfPagedPoolInPages\<close>, more than 1024), the allocation map has the bits
  0 to 1023 clear and every other bit set, and the end-of-allocation map has every bit
  clear. On a free build the statement needs the room between \<open>MmPagedPoolStart\<close> and
  \<open>MmNonPagedSystemStart\<close> to be at most 4 GiB - 4 MiB, so that the size in bytes fits 32
  bits; a checked build asserts the equality of the two sizes.
\<close>

theorem MiBuildPagedPool_bitmaps:
  assumes ret: "MiBuildPagedPool dbg env = Inr p"
    and fits: "dbg \<or> unat (MmNonPagedSystemStart env - MmPagedPoolStart env) \<le> 0xFFC00000"
  shows
    "SizeOfBitMap (PagedPoolAllocationMap p) = MmSizeOfPagedPoolInPages p
     \<and> SizeOfBitMap (EndOfPagedPoolBitmap p) = MmSizeOfPagedPoolInPages p
     \<and> 1024 < unat (MmSizeOfPagedPoolInPages p)
     \<and> (\<forall>i < unat (MmSizeOfPagedPoolInPages p).
           Buffer (PagedPoolAllocationMap p) i = (1024 \<le> i))
     \<and> (\<forall>i < unat (MmSizeOfPagedPoolInPages p). \<not> Buffer (EndOfPagedPoolBitmap p) i)"
proof -
  let ?k = "paged_pool_page_tables env"
  note r = MiBuildPagedPool_Inr [OF ret]
  have bounds: "8 \<le> unat ?k" "unat ?k \<le> 1024"
    using paged_pool_page_tables_bounds [of env] by simp_all
  have eq: "?k * 1024 = drop_bit PAGE_SHIFT (?k * PAGE_SIZE * 1024)"
  proof (cases dbg)
    case True
    then show ?thesis using r by simp
  next
    case False
    then have "unat ?k \<le> 1023"
      using fits paged_pool_page_tables_bounds [of env] by simp
    then show ?thesis by (simp add: page_tables_bytes)
  qed
  have pages: "MmSizeOfPagedPoolInPages p = ?k * 1024" using r eq by simp
  have upages: "unat (MmSizeOfPagedPoolInPages p) = unat ?k * 1024"
    using pages bounds by (simp add: page_tables_pages)
  have a: "SizeOfBitMap (PagedPoolAllocationMap p) = ?k * 1024"
    using r by (simp add: RtlClearBits_def RtlSetAllBits_def RtlInitializeBitMap_def)
  have e: "SizeOfBitMap (EndOfPagedPoolBitmap p) = ?k * 1024"
    using r by (simp add: RtlClearAllBits_def RtlInitializeBitMap_def)
  have abits: "Buffer (PagedPoolAllocationMap p) i = (1024 \<le> i)"
    if "i < unat (MmSizeOfPagedPoolInPages p)" for i
  proof -
    have "Buffer (PagedPoolAllocationMap p) i =
        (if i < 1024 \<and> i < unat (?k * 1024) then False
         else if i < unat (?k * 1024) then True else allocation_map_memory env i)"
      using r by (simp add: RtlClearBits_def RtlSetAllBits_def RtlInitializeBitMap_def)
    then show ?thesis using that pages by auto
  qed
  have ebits: "\<not> Buffer (EndOfPagedPoolBitmap p) i"
    if "i < unat (MmSizeOfPagedPoolInPages p)" for i
  proof -
    have "Buffer (EndOfPagedPoolBitmap p) i =
        (if i < unat (?k * 1024) then False else end_map_memory env i)"
      using r by (simp add: RtlClearAllBits_def RtlInitializeBitMap_def)
    then show ?thesis using that pages by simp
  qed
  have big: "1024 < unat (MmSizeOfPagedPoolInPages p)" using upages bounds by simp
  show ?thesis using a e pages big abits ebits by simp
qed

theorem MiBuildPagedPool_bitmaps_witness:
  "unat (MmNonPagedSystemStart example_pool_env - MmPagedPoolStart example_pool_env)
     \<le> 0xFFC00000
   \<and> (case MiBuildPagedPool False example_pool_env of
        Inl e \<Rightarrow> False
      | Inr p \<Rightarrow>
          MmSizeOfPagedPoolInPages p = 40960
          \<and> SizeOfBitMap (PagedPoolAllocationMap p) = 40960
          \<and> SizeOfBitMap (EndOfPagedPoolBitmap p) = 40960
          \<and> \<not> Buffer (PagedPoolAllocationMap p) 0
          \<and> \<not> Buffer (PagedPoolAllocationMap p) 1023
          \<and> Buffer (PagedPoolAllocationMap p) 1024
          \<and> Buffer (PagedPoolAllocationMap p) 40959
          \<and> \<not> Buffer (EndOfPagedPoolBitmap p) 0
          \<and> \<not> Buffer (EndOfPagedPoolBitmap p) 40959)"
proof -
  have tables: "paged_pool_page_tables example_pool_env = 40"
    by (simp add: paged_pool_page_tables_def example_pool_env_def Let_def MB_def PAGE_SIZE_def
        PAGE_SHIFT_def MI_MIN_INIT_PAGED_POOLSIZE_def BYTES_TO_PAGES_def)
  have "\<exists>p. MiBuildPagedPool False example_pool_env = Inr p"
    by (simp add: MiBuildPagedPool_def Let_def example_pool_env_def)
  then obtain p where p: "MiBuildPagedPool False example_pool_env = Inr p" by blast
  have gap: "unat (MmNonPagedSystemStart example_pool_env - MmPagedPoolStart example_pool_env)
     \<le> 0xFFC00000"
    by (simp add: example_pool_env_def)
  have pages: "MmSizeOfPagedPoolInPages p = 40960"
    using MiBuildPagedPool_Inr [OF p] tables by (simp add: PAGE_SIZE_def PAGE_SHIFT_def)
  show ?thesis
    using MiBuildPagedPool_bitmaps [OF p] gap pages p by simp
qed

subsection \<open>Order of the thresholds\<close>

lemma MiInitializeMemoryEvents_thresholds_Inr:
  assumes "MiInitializeMemoryEvents_thresholds dbg plenty pages s = Inr s'"
  shows "MmHighMemoryThreshold s' =
           max (if MmHighMemoryThreshold s \<noteq> 0
                then MmHighMemoryThreshold s * (MB div PAGE_SIZE)
                else 3 * MmLowMemoryThreshold s')
               (MmLowMemoryThreshold s')"
  using assms
  by (auto simp: MiInitializeMemoryEvents_thresholds_def Let_def split: if_splits)

text \<open>
  What holds of the thresholds for every input: \<open>MiInitializeMemoryEvents\<close> ends with
  \<open>high = max(high, low)\<close>, so the high memory threshold is at least the low one, and it is
  strictly greater when \<open>HighMemoryThreshold\<close> has no registry override and the low
  threshold is not zero and its triple fits 32 bits (in particular when neither threshold
  is overridden and \<open>plenty_free_pages\<close> is not zero and below \<open>2 ^ 31\<close>). The paged-pool
  thresholds of \<open>MiBuildPagedPool\<close> satisfy low < high for every input.
\<close>

lemma thresholds_ordered:
  "(MiInitializeMemoryEvents_thresholds dbg plenty pages s = Inr s' \<longrightarrow>
      MmLowMemoryThreshold s' \<le> MmHighMemoryThreshold s'
      \<and> (MmHighMemoryThreshold s = 0 \<and> MmLowMemoryThreshold s' \<noteq> 0
           \<and> 3 * unat (MmLowMemoryThreshold s') < 2 ^ 32 \<longrightarrow>
          MmLowMemoryThreshold s' < MmHighMemoryThreshold s')
      \<and> (MmLowMemoryThreshold s = 0 \<and> MmHighMemoryThreshold s = 0
           \<and> plenty \<noteq> 0 \<and> unat plenty < 2 ^ 31 \<longrightarrow>
          MmLowMemoryThreshold s' < MmHighMemoryThreshold s'))
   \<and> (MiBuildPagedPool dbg' env = Inr p \<longrightarrow>
        MiLowPagedPoolThreshold p < MiHighPagedPoolThreshold p)"
proof (intro conjI impI)
  assume r: "MiInitializeMemoryEvents_thresholds dbg plenty pages s = Inr s'"
  show "MmLowMemoryThreshold s' \<le> MmHighMemoryThreshold s'"
    unfolding MiInitializeMemoryEvents_thresholds_Inr [OF r] by simp
next
  assume r: "MiInitializeMemoryEvents_thresholds dbg plenty pages s = Inr s'"
    and a: "MmHighMemoryThreshold s = 0 \<and> MmLowMemoryThreshold s' \<noteq> 0
           \<and> 3 * unat (MmLowMemoryThreshold s') < 2 ^ 32"
  let ?L = "MmLowMemoryThreshold s'"
  have "unat (3 * ?L) = (3 * unat ?L) mod 2 ^ 32" by (simp add: unat_word_ariths)
  then have u3: "unat (3 * ?L) = 3 * unat ?L" using a by simp
  have "0 < unat ?L" using a by (simp add: unat_gt_0)
  then have "?L < 3 * ?L" using u3 by (simp add: word_less_nat_alt)
  moreover have "MmHighMemoryThreshold s' = max (3 * ?L) ?L"
    using MiInitializeMemoryEvents_thresholds_Inr [OF r] a by simp
  ultimately show "?L < MmHighMemoryThreshold s'" by (simp add: max_def)
next
  assume r: "MiInitializeMemoryEvents_thresholds dbg plenty pages s = Inr s'"
    and a: "MmLowMemoryThreshold s = 0 \<and> MmHighMemoryThreshold s = 0
           \<and> plenty \<noteq> 0 \<and> unat plenty < 2 ^ 31"
  let ?L = "MmLowMemoryThreshold s'"
  have "?L = min (if pages > 0x40000
                  then (32 * MB) div PAGE_SIZE + drop_bit 7 (pages - 0x40000)
                  else if pages > 0x8000
                  then plenty + drop_bit 5 (pages - 0x8000)
                  else plenty) ((64 * MB) div PAGE_SIZE)"
    using r a
    by (auto simp: MiInitializeMemoryEvents_thresholds_def Let_def split: if_splits)
  then have uL: "unat ?L = low_memory_threshold_spec (unat plenty) (unat pages)"
    using low_threshold_default [of plenty pages] a by simp
  have le: "unat ?L \<le> 16384" unfolding uL by (rule low_memory_threshold_spec_le)
  have pos: "0 < unat ?L"
    unfolding uL using a by (simp add: low_memory_threshold_spec_pos unat_gt_0)
  have "unat (3 * ?L) = (3 * unat ?L) mod 2 ^ 32" by (simp add: unat_word_ariths)
  then have u3: "unat (3 * ?L) = 3 * unat ?L" using le by simp
  have "?L < 3 * ?L" using u3 pos by (simp add: word_less_nat_alt)
  moreover have "MmHighMemoryThreshold s' = max (3 * ?L) ?L"
    using MiInitializeMemoryEvents_thresholds_Inr [OF r] a by simp
  ultimately show "?L < MmHighMemoryThreshold s'" by (simp add: max_def)
next
  assume r: "MiBuildPagedPool dbg' env = Inr p"
  have "8 \<le> unat (paged_pool_page_tables env)" "unat (paged_pool_page_tables env) \<le> 1024"
    using paged_pool_page_tables_bounds [of env] by simp_all
  then show "MiLowPagedPoolThreshold p < MiHighPagedPoolThreshold p"
    using page_tables_thresholds [of "paged_pool_page_tables env"] MiBuildPagedPool_Inr [OF r]
    by simp
qed

lemma thresholds_ordered_example:
  "MiInitializeMemoryEvents_thresholds True 400 524288
       \<lparr>MmLowMemoryThreshold = 0, MmHighMemoryThreshold = 0\<rparr>
     = Inr \<lparr>MmLowMemoryThreshold = 10240, MmHighMemoryThreshold = 30720\<rparr>
   \<and> (400 :: 32 word) \<noteq> 0 \<and> unat (400 :: 32 word) < 2 ^ 31
   \<and> MmLowMemoryThreshold \<lparr>MmLowMemoryThreshold = 10240, MmHighMemoryThreshold = 30720\<rparr>
       < MmHighMemoryThreshold \<lparr>MmLowMemoryThreshold = 10240, MmHighMemoryThreshold = 30720\<rparr>
   \<and> (case MiBuildPagedPool False example_pool_env of
        Inl e \<Rightarrow> False
      | Inr p \<Rightarrow>
          MiLowPagedPoolThreshold p = 1025 \<and> MiHighPagedPoolThreshold p = 2051
          \<and> MiLowPagedPoolThreshold p < MiHighPagedPoolThreshold p)"
proof -
  have m: "MiInitializeMemoryEvents_thresholds True 400 524288
       \<lparr>MmLowMemoryThreshold = 0, MmHighMemoryThreshold = 0\<rparr>
     = Inr \<lparr>MmLowMemoryThreshold = 10240, MmHighMemoryThreshold = 30720\<rparr>"
    by (simp add: MiInitializeMemoryEvents_thresholds_def MB_def PAGE_SIZE_def Let_def)
  have tables: "paged_pool_page_tables example_pool_env = 40"
    by (simp add: paged_pool_page_tables_def example_pool_env_def Let_def MB_def PAGE_SIZE_def
        PAGE_SHIFT_def MI_MIN_INIT_PAGED_POOLSIZE_def BYTES_TO_PAGES_def)
  have "\<exists>p. MiBuildPagedPool False example_pool_env = Inr p"
    by (simp add: MiBuildPagedPool_def Let_def example_pool_env_def)
  then obtain p where p: "MiBuildPagedPool False example_pool_env = Inr p" by blast
  have lo: "MiLowPagedPoolThreshold p = 1025" and hi: "MiHighPagedPoolThreshold p = 2051"
    using MiBuildPagedPool_Inr [OF p] tables
    by (simp_all add: PAGE_SHIFT_def MB_def sizeof_RTL_BITMAP_def sizeof_ULONG_def)
  show ?thesis
    using thresholds_ordered [of True 400 524288
        "\<lparr>MmLowMemoryThreshold = 0, MmHighMemoryThreshold = 0\<rparr>"
        "\<lparr>MmLowMemoryThreshold = 10240, MmHighMemoryThreshold = 30720\<rparr>"
        False example_pool_env p] m p lo hi
    by simp
qed

text \<open>
  C6. The claim: after the thresholds are computed the high memory threshold is strictly
  greater than the low one, registry overrides included. The last statement of the
  computation, under the comment \<open>Make sure high threshold is actually higher than the low\<close>,
  is \<open>high = max(high, low)\<close>, which only makes it at least as high: with the registry
  values \<open>LowMemoryThreshold = 100\<close> and \<open>HighMemoryThreshold = 50\<close> (in MB) both thresholds
  are 25600 pages, on a checked build as well.
\<close>

theorem MiInitializeMemoryEvents_override_not_higher:
  "MiInitializeMemoryEvents_thresholds True 400 0x8000
       \<lparr>MmLowMemoryThreshold = 100, MmHighMemoryThreshold = 50\<rparr>
     = Inr \<lparr>MmLowMemoryThreshold = 25600, MmHighMemoryThreshold = 25600\<rparr>
   \<and> MiInitializeMemoryEvents_thresholds False 400 0x8000
       \<lparr>MmLowMemoryThreshold = 100, MmHighMemoryThreshold = 50\<rparr>
     = Inr \<lparr>MmLowMemoryThreshold = 25600, MmHighMemoryThreshold = 25600\<rparr>
   \<and> (case MiInitializeMemoryEvents_thresholds True 400 0x8000
              \<lparr>MmLowMemoryThreshold = 100, MmHighMemoryThreshold = 50\<rparr> of
         Inl e \<Rightarrow> False
       | Inr t \<Rightarrow> \<not> MmLowMemoryThreshold t < MmHighMemoryThreshold t)"
  by (simp add: MiInitializeMemoryEvents_thresholds_def MB_def PAGE_SIZE_def Let_def)

subsection \<open>Evaluation of the loops on numerals\<close>

lemma insert_free_pages_numeral:
  "insert_free_pages (numeral k) p s =
     insert_free_pages (pred_numeral k) (p - 1)
       (MiInsertPageInFreeList p
          (s\<lparr>MmPfnDatabase :=
               (MmPfnDatabase s)(p := (MmPfnDatabase s p)\<lparr>CacheAttribute := MiNonCached\<rparr>)\<rparr>))"
  by (simp add: numeral_eq_Suc)

lemma active_pages_numeral:
  "active_pages (numeral k) i s =
     active_pages (pred_numeral k) (i + 1)
       (s\<lparr>MmPfnDatabase :=
            (MmPfnDatabase s)
              (i := (MmPfnDatabase s i)
                      \<lparr>PteFrame := 0, PteAddress := None, u2 := u2 (MmPfnDatabase s i) + 1,
                       ReferenceCount := 1, PageLocation := ActiveAndValid,
                       CacheAttribute := MiNonCached\<rparr>)\<rparr>)"
  by (simp add: numeral_eq_Suc)

lemma follow_flink_numeral:
  "follow_flink (numeral k) db p =
     (if p = LIST_HEAD then [] else p # follow_flink (pred_numeral k) db (u1 (db p)))"
  by (simp add: numeral_eq_Suc)

lemmas evaluate_pfn =
  MiScanMemoryDescriptors_def boot_state_def scan_descriptor_def MiIsMemoryTypeInDatabase_def
  MiIsMemoryTypeFree_def Let_def MiMapPfnDatabase_def map_descriptor_def x86_layout_def
  vpn_of_def pfn_entry_va_def PAGE_SHIFT_def example_page_table_def MiEarlyAllocPages_def
  zero_page_def entry_in_page_def zero_MMPFN_def MiInsertPageInFreeList_def example_heads_def
  color_free_list_def LIST_HEAD_def insert_free_pages_numeral active_pages_numeral
  follow_flink_numeral

subsection \<open>Damaged RAM\<close>

text \<open>
  C4. The claim: \<open>MiMapPfnDatabase\<close> aborts fatally when it meets a \<open>LoaderBad\<close> descriptor
  that is not the bootstrap descriptor. On the list Free(0, 4), Bad(4, 1), Free(5, 2) a
  checked build stops at the assertion; a free build returns, with page 4 entered in the
  database as an active page (share count 1, reference count 1) and on no free list.
\<close>

theorem MiMapPfnDatabase_bad_ram:
  "(case MiScanMemoryDescriptors bad_ram_descriptors bad_ram_boot of
      Inl e \<Rightarrow> False
    | Inr s \<Rightarrow>
        MxFreeDescriptor s = Some 0
        \<and> (case MiMapPfnDatabase True x86_layout bad_ram_descriptors s of
             Inl e \<Rightarrow> e = AssertionFailure
           | Inr s' \<Rightarrow> False)
        \<and> (case MiMapPfnDatabase False x86_layout bad_ram_descriptors s of
             Inl e \<Rightarrow> False
           | Inr s' \<Rightarrow>
               PageLocation (MmPfnDatabase s' 4) = ActiveAndValid
               \<and> ReferenceCount (MmPfnDatabase s' 4) = 1
               \<and> u2 (MmPfnDatabase s' 4) = 1
               \<and> color_free_list s' 4 = []
               \<and> color_free_list s' 5 = [5]
               \<and> color_free_list s' 3 = [3]))"
  by (simp add: evaluate_pfn bad_ram_descriptors_def bad_ram_boot_def)

subsection \<open>Free lists by color\<close>









subsection \<open>What the passes leave unchanged\<close>








lemma empty_color_tables_colors: "colors (empty_color_tables n i s) = colors s"
  by (induction n arbitrary: i s) simp_all

















end
